theory Spec2Isabelle
  imports Complex_Main
begin

section \<open>The browser platform\<close>

text \<open>
  The front ends are event driven: every method and every browser callback runs to
  completion on one thread. Each class is a record, each method a function from the
  record to the updated record, and the browser objects the code holds references to
  (Audio elements, object URLs, sockets, timers, the console) are kept in explicit
  stores beside the fields, so that aliasing between a field and the browser's own
  reference to the same object is visible.
\<close>

subsection \<open>\<^verbatim>\<open>atob\<close>\<close>

text \<open>
  \<^verbatim>\<open>base64ToBlob\<close> calls the built-in \<^verbatim>\<open>atob\<close>, which throws on malformed input.
  Only whether it throws matters here. The test follows the forgiving-base64 decoding
  of the HTML Standard: ASCII whitespace is dropped, one or two trailing \<^verbatim>\<open>=\<close> are
  dropped when the length is a multiple of four, and the rest must be base64 alphabet
  characters whose number is not 1 modulo 4.
\<close>

definition ascii_whitespace :: "char \<Rightarrow> bool" where
  "ascii_whitespace c = (c \<in> set [CHR 0x09, CHR 0x0A, CHR 0x0C, CHR 0x0D, CHR 0x20])"

definition base64_char :: "char \<Rightarrow> bool" where
  "base64_char c =
     (let n = (of_char c :: nat)
      in (65 \<le> n \<and> n \<le> 90) \<or> (97 \<le> n \<and> n \<le> 122) \<or> (48 \<le> n \<and> n \<le> 57)
           \<or> n = 43 \<or> n = 47)"

definition strip_padding :: "string \<Rightarrow> string" where
  "strip_padding d =
     (if length d mod 4 = 0 then
        (case rev d of
           c1 # c2 # r \<Rightarrow>
             if c1 = CHR ''='' \<and> c2 = CHR ''='' then rev r
             else if c1 = CHR ''='' then rev (c2 # r)
             else d
         | _ \<Rightarrow> d)
      else d)"

definition atob_ok :: "string \<Rightarrow> bool" where
  "atob_ok s =
     (let d = strip_padding (filter (\<lambda>c. \<not> ascii_whitespace c) s)
      in length d mod 4 \<noteq> 1 \<and> list_all base64_char d)"

subsection \<open>Numbers, the console, Audio elements\<close>

text \<open>
  A JavaScript number is a double. The code below only compares numbers and never
  rounds, so the finite ones are read as reals; the three special values are kept.
\<close>

datatype jsnum = NaN | NegInf | Fin real | PosInf

datatype js_error = InvalidCharacterError | TypeError | InvalidStateError | Error string

text \<open>
  A console entry is the level and the text of the first argument of the call, without
  the pictograph some of the texts start with; of a template literal it is the text
  before the first interpolated value.
\<close>

datatype log_level = Log | Warn | Err

type_synonym log_entry = "log_level \<times> string"

text \<open>
  An Audio element, as far as the players observe it: the data behind the object URL it
  was created from, its volume attribute, and whether it is playing (\<^verbatim>\<open>play()\<close> was
  called on it and it has neither ended, failed nor been paused since). The handle of an
  element is its position in the store; the object URL made for it has the same handle.
  \<open>started\<close> is the trace of the calls of \<^verbatim>\<open>play()\<close>: the element and its data, in
  the order of the calls.

  A call of \<^verbatim>\<open>play()\<close> does not make sound at once: the browser first has to load and
  decode the data behind the element's URL, which takes a time of its own for every
  element. When it has, playback of the element begins (its \<^verbatim>\<open>playing\<close> event, for which
  neither class sets a handler). \<open>begun\<close> is the trace of these beginnings: the element
  and its data, in the order in which the elements began to play. Playback of an element
  can begin while \<^verbatim>\<open>play()\<close> is in effect on it, once. An \<^verbatim>\<open>ended\<close> event stands for
  the whole playback of its element; a run need not spell out the beginning before it.
\<close>

record audio_elem =
  src :: string
  el_volume :: jsnum
  el_playing :: bool

record page =
  console :: "log_entry list"

record browser = page +
  elements :: "audio_elem list"
  started :: "(nat \<times> string) list"
  begun :: "(nat \<times> string) list"
  revoked :: "nat list"

definition new_Audio :: "string \<Rightarrow> audio_elem" where
  "new_Audio data = \<lparr>src = data, el_volume = Fin 1, el_playing = False\<rparr>"

definition set_playing :: "nat \<Rightarrow> bool \<Rightarrow> audio_elem list \<Rightarrow> audio_elem list" where
  "set_playing h b els = (if h < length els then els[h := (els ! h)\<lparr>el_playing := b\<rparr>] else els)"

definition is_playing :: "audio_elem list \<Rightarrow> nat \<Rightarrow> bool" where
  "is_playing els h = (h < length els \<and> el_playing (els ! h))"

definition playing :: "'a browser_scheme \<Rightarrow> nat list" where
  "playing b = filter (is_playing (elements b)) [0 ..< length (elements b)]"

definition el_play :: "nat \<Rightarrow> 'a browser_scheme \<Rightarrow> 'a browser_scheme" where
  "el_play h b =
     (if h < length (elements b)
      then b\<lparr>elements := set_playing h True (elements b),
             started := started b @ [(h, src (elements b ! h))]\<rparr>
      else b)"

definition el_begin :: "nat \<Rightarrow> 'a browser_scheme \<Rightarrow> 'a browser_scheme" where
  "el_begin h b =
     (if is_playing (elements b) h \<and> h \<notin> set (map fst (begun b))
      then b\<lparr>begun := begun b @ [(h, src (elements b ! h))]\<rparr>
      else b)"

definition console_log :: "log_level \<Rightarrow> string \<Rightarrow> 'a page_scheme \<Rightarrow> 'a page_scheme" where
  "console_log l s b = b\<lparr>console := console b @ [(l, s)]\<rparr>"

definition revokeObjectURL :: "nat \<Rightarrow> 'a browser_scheme \<Rightarrow> 'a browser_scheme" where
  "revokeObjectURL u b = b\<lparr>revoked := revoked b @ [u]\<rparr>"

section \<open>AudioPlayer (audio-player.js)\<close>

record chunk =
  audio :: nat
  url :: nat
  index :: nat

datatype player_timer = NextChunk | Cleanup

record audio_player = browser +
  isMuted :: bool
  audioChunks :: "string list"
  audioQueue :: "chunk list"
  isStreaming :: bool
  currentChunkIndex :: nat
  installed :: "chunk list"
  timers :: "player_timer list"

text \<open>
  \<open>installed\<close> holds the chunks whose element has its \<^verbatim>\<open>onended\<close> and \<^verbatim>\<open>onerror\<close>
  closures set (each closure captures its chunk); \<open>timers\<close> the pending \<^verbatim>\<open>setTimeout\<close>
  callbacks. \<^verbatim>\<open>playAudioResponse\<close>, the single-shot path on the page's own audio
  element, is outside the streamed playback modelled here.
\<close>

definition new_AudioPlayer :: audio_player where
  "new_AudioPlayer =
     \<lparr>console = [], elements = [], started = [], begun = [], revoked = [],
      isMuted = False, audioChunks = [], audioQueue = [], isStreaming = False,
      currentChunkIndex = 0, installed = [], timers = []\<rparr>"

definition initializeStreamingAudio :: "audio_player \<Rightarrow> audio_player" where
  "initializeStreamingAudio p =
     (if \<not> isMuted p
      then p\<lparr>audioChunks := [], audioQueue := [], isStreaming := True, currentChunkIndex := 0\<rparr>
      else p)"

definition playNextChunk :: "audio_player \<Rightarrow> audio_player" where
  "playNextChunk p =
     (if length (audioQueue p) > 0 \<and> \<not> isMuted p then
        (let c = hd (audioQueue p);
             p1 = p\<lparr>audioQueue := tl (audioQueue p), installed := installed p @ [c]\<rparr>
         in el_play (audio c) p1)
      else p)"

text \<open>
  \<^verbatim>\<open>playAudioChunk\<close> has no \<^verbatim>\<open>try\<close>: when \<^verbatim>\<open>atob\<close> throws, the exception leaves the
  method before anything was changed.
\<close>

definition playAudioChunk :: "string \<Rightarrow> audio_player \<Rightarrow> js_error + audio_player" where
  "playAudioChunk audioBase64 p =
     (if \<not> isMuted p \<and> isStreaming p then
        (if \<not> atob_ok audioBase64 then Inl InvalidCharacterError
         else
           (let h = length (elements p);
                p1 = p\<lparr>elements := elements p @ [new_Audio audioBase64]\<rparr>;
                p2 = p1\<lparr>audioQueue := audioQueue p1 @ [\<lparr>audio = h, url = h, index = currentChunkIndex p1\<rparr>],
                        currentChunkIndex := currentChunkIndex p1 + 1\<rparr>
            in Inr (if length (audioQueue p2) = 1 then playNextChunk p2 else p2)))
      else Inr p)"

definition chunk_onended :: "chunk \<Rightarrow> audio_player \<Rightarrow> audio_player" where
  "chunk_onended c p =
     (let p1 = revokeObjectURL (url c) p
      in if length (audioQueue p1) > 0 \<or> isStreaming p1
         then p1\<lparr>timers := timers p1 @ [NextChunk]\<rparr>
         else p1)"

definition chunk_onerror :: "chunk \<Rightarrow> audio_player \<Rightarrow> audio_player" where
  "chunk_onerror c p =
     (let p1 = revokeObjectURL (url c) (console_log Err ''Audio chunk playback error:'' p)
      in if length (audioQueue p1) > 0 \<or> isStreaming p1
         then playNextChunk p1
         else p1)"

definition finalizeStreamingAudio :: "audio_player \<Rightarrow> audio_player" where
  "finalizeStreamingAudio p = p\<lparr>isStreaming := False, timers := timers p @ [Cleanup]\<rparr>"

definition cleanup_callback :: "audio_player \<Rightarrow> audio_player" where
  "cleanup_callback p =
     (if length (audioQueue p) = 0 then p\<lparr>audioChunks := [], currentChunkIndex := 0\<rparr> else p)"

definition toggleMute :: "audio_player \<Rightarrow> audio_player" where
  "toggleMute p = p\<lparr>isMuted := \<not> isMuted p\<rparr>"

text \<open>
  The events that reach an AudioPlayer: the orchestrator's calls, the \<^verbatim>\<open>ended\<close> and
  \<^verbatim>\<open>error\<close> events of a playing element, the beginning of playback of an element whose
  data the browser has decoded, and the expiry of a pending timer (any pending
  timer may fire next). An element event for an element that is not playing, and the
  expiry of a timer that is not pending, do not occur and leave the state as it is. An
  exception thrown by a method ends the browser task; what the method changed before
  stays.
\<close>

datatype player_event =
    InitializeStreamingAudio
  | PlayAudioChunk string
  | FinalizeStreamingAudio
  | ToggleMute
  | AudioEnded nat
  | AudioError nat
  | AudioPlaying nat
  | TimerFires nat

definition element_event :: "(chunk \<Rightarrow> audio_player \<Rightarrow> audio_player) \<Rightarrow> nat \<Rightarrow> audio_player \<Rightarrow> audio_player" where
  "element_event handler h p =
     (if is_playing (elements p) h then
        (let p1 = p\<lparr>elements := set_playing h False (elements p)\<rparr>
         in case find (\<lambda>c. audio c = h) (installed p1) of
              Some c \<Rightarrow> handler c p1
            | None \<Rightarrow> p1)
      else p)"

fun player_step :: "audio_player \<Rightarrow> player_event \<Rightarrow> audio_player" where
  "player_step p InitializeStreamingAudio = initializeStreamingAudio p"
| "player_step p (PlayAudioChunk b) = (case playAudioChunk b p of Inl e \<Rightarrow> p | Inr p1 \<Rightarrow> p1)"
| "player_step p FinalizeStreamingAudio = finalizeStreamingAudio p"
| "player_step p ToggleMute = toggleMute p"
| "player_step p (AudioEnded h) = element_event chunk_onended h p"
| "player_step p (AudioError h) = element_event chunk_onerror h p"
| "player_step p (AudioPlaying h) = el_begin h p"
| "player_step p (TimerFires k) =
     (if k < length (timers p) then
        (let p1 = p\<lparr>timers := take k (timers p) @ drop (Suc k) (timers p)\<rparr>
         in case timers p ! k of NextChunk \<Rightarrow> playNextChunk p1 | Cleanup \<Rightarrow> cleanup_callback p1)
      else p)"

definition player_run :: "player_event list \<Rightarrow> audio_player \<Rightarrow> audio_player" where
  "player_run es p = foldl player_step p es"

section \<open>AudioManager (websocket-manager.js)\<close>

subsection \<open>\<^verbatim>\<open>Math.min\<close>, \<^verbatim>\<open>Math.max\<close> and the volume attribute\<close>

fun js_le :: "jsnum \<Rightarrow> jsnum \<Rightarrow> bool" where
  "js_le NaN _ = False"
| "js_le _ NaN = False"
| "js_le NegInf _ = True"
| "js_le _ PosInf = True"
| "js_le (Fin a) (Fin b) = (a \<le> b)"
| "js_le PosInf _ = False"
| "js_le (Fin a) NegInf = False"

text \<open>Both return NaN as soon as one argument is NaN.\<close>

definition Math_min :: "jsnum \<Rightarrow> jsnum \<Rightarrow> jsnum" where
  "Math_min a b = (if a = NaN \<or> b = NaN then NaN else if js_le a b then a else b)"

definition Math_max :: "jsnum \<Rightarrow> jsnum \<Rightarrow> jsnum" where
  "Math_max a b = (if a = NaN \<or> b = NaN then NaN else if js_le a b then b else a)"

text \<open>
  Assigning to \<^verbatim>\<open>HTMLMediaElement.volume\<close> throws unless the value is a finite number
  between 0 and 1.
\<close>

definition volume_in_range :: "jsnum \<Rightarrow> bool" where
  "volume_in_range v = (case v of Fin r \<Rightarrow> 0 \<le> r \<and> r \<le> 1 | _ \<Rightarrow> False)"

definition set_el_volume :: "nat \<Rightarrow> jsnum \<Rightarrow> audio_elem list \<Rightarrow> audio_elem list" where
  "set_el_volume h v els = (if h < length els then els[h := (els ! h)\<lparr>el_volume := v\<rparr>] else els)"

subsection \<open>The class\<close>

text \<open>
  A value that is a string or \<^verbatim>\<open>undefined\<close> (a property a message may lack) is a
  \<open>string option\<close>; it is falsy when it is \<^verbatim>\<open>undefined\<close> or the empty string.
\<close>

definition falsy :: "string option \<Rightarrow> bool" where
  "falsy v = (case v of None \<Rightarrow> True | Some s \<Rightarrow> s = [])"

record queued_audio =
  audioB64 :: "string option"
  mimeType :: string

text \<open>
  \<open>awaiting\<close> holds the elements whose \<^verbatim>\<open>play()\<close> promise an invocation of the async
  \<^verbatim>\<open>playAudio\<close> is suspended on. The handlers \<^verbatim>\<open>playAudio\<close> sets on an element are set
  before \<^verbatim>\<open>play()\<close> is called on it, so every playing element has them; their closure
  holds the element's object URL, which has the element's handle.
\<close>

record audio_manager = browser +
  currentAudio :: "nat option"
  audioQueue_am :: "queued_audio list"
  isPlaying :: bool
  volume :: jsnum
  awaiting :: "nat list"

definition new_AudioManager :: audio_manager where
  "new_AudioManager =
     \<lparr>console = [], elements = [], started = [], begun = [], revoked = [],
      currentAudio = None, audioQueue_am = [], isPlaying = False, volume = Fin 1, awaiting = []\<rparr>"

definition stopCurrentAudio :: "audio_manager \<Rightarrow> audio_manager" where
  "stopCurrentAudio m =
     (let m1 = (case currentAudio m of
                  Some h \<Rightarrow> m\<lparr>elements := set_playing h False (elements m), currentAudio := None\<rparr>
                | None \<Rightarrow> m)
      in m1\<lparr>isPlaying := False\<rparr>)"

text \<open>
  \<^verbatim>\<open>playAudio\<close> up to its \<^verbatim>\<open>await\<close>. The result says whether the call has already returned
  \<^verbatim>\<open>false\<close> (\<open>None\<close>) or is suspended on the promise of the element it started.
\<close>

definition playAudio :: "string option \<Rightarrow> string \<Rightarrow> audio_manager \<Rightarrow> audio_manager \<times> nat option" where
  "playAudio b64 mime m =
     (if falsy b64 then (console_log Warn ''No audio data provided'' m, None)
      else if \<not> atob_ok (the b64) then
        (let m1 = console_log Err ''Error converting base64 to blob:'' m;
             m2 = console_log Err ''Audio playback error:'' m1
         in (m2\<lparr>isPlaying := False\<rparr>, None))
      else
        (let m1 = stopCurrentAudio m;
             h = length (elements m1);
             m2 = m1\<lparr>elements := elements m1 @ [new_Audio (the b64)], currentAudio := Some h\<rparr>
         in if \<not> volume_in_range (volume m2) then
              (let m3 = console_log Err ''Audio playback error:'' m2
               in (m3\<lparr>isPlaying := False\<rparr>, None))
            else
              (let m3 = m2\<lparr>elements := set_el_volume h (volume m2) (elements m2), isPlaying := True\<rparr>;
                   m4 = el_play h m3
               in (m4\<lparr>awaiting := awaiting m4 @ [h]\<rparr>, Some h))))"

definition playNextInQueue :: "audio_manager \<Rightarrow> audio_manager" where
  "playNextInQueue m =
     (if length (audioQueue_am m) = 0 \<or> isPlaying m then m
      else
        (let nextAudio = hd (audioQueue_am m);
             m1 = m\<lparr>audioQueue_am := tl (audioQueue_am m)\<rparr>
         in fst (playAudio (audioB64 nextAudio) (mimeType nextAudio) m1)))"

definition queueAudio :: "string option \<Rightarrow> string \<Rightarrow> audio_manager \<Rightarrow> audio_manager" where
  "queueAudio b64 mime m =
     (let m1 = m\<lparr>audioQueue_am := audioQueue_am m @ [\<lparr>audioB64 = b64, mimeType = mime\<rparr>]\<rparr>
      in if \<not> isPlaying m1 then playNextInQueue m1 else m1)"

definition am_onended :: "nat \<Rightarrow> audio_manager \<Rightarrow> audio_manager" where
  "am_onended audioUrl m =
     (let m1 = revokeObjectURL audioUrl m;
          m2 = m1\<lparr>currentAudio := None, isPlaying := False\<rparr>;
          m3 = console_log Log ''Audio playback completed'' m2
      in playNextInQueue m3)"

definition am_onerror :: "nat \<Rightarrow> audio_manager \<Rightarrow> audio_manager" where
  "am_onerror audioUrl m =
     (let m1 = console_log Err ''Audio playback error:'' m;
          m2 = revokeObjectURL audioUrl m1
      in m2\<lparr>currentAudio := None, isPlaying := False\<rparr>)"

text \<open>The two ways \<^verbatim>\<open>playAudio\<close> resumes after its \<^verbatim>\<open>await\<close>.\<close>

definition playAudio_resolved :: "audio_manager \<Rightarrow> audio_manager" where
  "playAudio_resolved m = console_log Log ''Audio playback started'' m"

definition playAudio_rejected :: "audio_manager \<Rightarrow> audio_manager" where
  "playAudio_rejected m = (console_log Err ''Audio playback error:'' m)\<lparr>isPlaying := False\<rparr>"

definition clearQueue :: "audio_manager \<Rightarrow> audio_manager" where
  "clearQueue m = m\<lparr>audioQueue_am := []\<rparr>"

definition stopAll :: "audio_manager \<Rightarrow> audio_manager" where
  "stopAll m = clearQueue (stopCurrentAudio m)"

text \<open>
  \<^verbatim>\<open>setVolume\<close> stores the clamped value first; the assignment to the current element
  then throws when the stored value is NaN. The second component is the exception
  that leaves the method, if any.
\<close>

definition setVolume :: "jsnum \<Rightarrow> audio_manager \<Rightarrow> audio_manager \<times> js_error option" where
  "setVolume v m =
     (let m1 = m\<lparr>volume := Math_max (Fin 0) (Math_min (Fin 1) v)\<rparr>
      in case currentAudio m1 of
           Some h \<Rightarrow>
             if volume_in_range (volume m1)
             then (m1\<lparr>elements := set_el_volume h (volume m1) (elements m1)\<rparr>, None)
             else (m1, Some TypeError)
         | None \<Rightarrow> (m1, None))"

definition getVolume :: "audio_manager \<Rightarrow> jsnum" where
  "getVolume m = volume m"

definition isAudioPlaying :: "audio_manager \<Rightarrow> bool" where
  "isAudioPlaying m = isPlaying m"

definition getQueueLength :: "audio_manager \<Rightarrow> nat" where
  "getQueueLength m = length (audioQueue_am m)"

text \<open>
  The events that reach an AudioManager: the calls of its methods, the \<^verbatim>\<open>ended\<close> and
  \<^verbatim>\<open>error\<close> events of a playing element, the beginning of playback of an element whose
  data the browser has decoded, and the settling of a \<^verbatim>\<open>play()\<close> promise
  that a \<^verbatim>\<open>playAudio\<close> is suspended on. A rejected \<^verbatim>\<open>play()\<close> leaves its element not
  playing. The \<^verbatim>\<open>onloadstart\<close> and \<^verbatim>\<open>oncanplay\<close> handlers \<^verbatim>\<open>playAudio\<close> sets only write
  to the console and are left out.
\<close>

datatype am_event =
    QueueAudio "string option" string
  | PlayAudio "string option" string
  | StopCurrentAudio
  | ClearQueue
  | StopAll
  | SetVolume jsnum
  | AmEnded nat
  | AmError nat
  | AmPlaying nat
  | PlayResolved nat
  | PlayRejected nat

definition am_element_event :: "(nat \<Rightarrow> audio_manager \<Rightarrow> audio_manager) \<Rightarrow> nat \<Rightarrow> audio_manager \<Rightarrow> audio_manager" where
  "am_element_event handler h m =
     (if is_playing (elements m) h
      then handler h (m\<lparr>elements := set_playing h False (elements m)\<rparr>)
      else m)"

fun am_step :: "audio_manager \<Rightarrow> am_event \<Rightarrow> audio_manager" where
  "am_step m (QueueAudio b mime) = queueAudio b mime m"
| "am_step m (PlayAudio b mime) = fst (playAudio b mime m)"
| "am_step m StopCurrentAudio = stopCurrentAudio m"
| "am_step m ClearQueue = clearQueue m"
| "am_step m StopAll = stopAll m"
| "am_step m (SetVolume v) = fst (setVolume v m)"
| "am_step m (AmEnded h) = am_element_event am_onended h m"
| "am_step m (AmError h) = am_element_event am_onerror h m"
| "am_step m (AmPlaying h) = el_begin h m"
| "am_step m (PlayResolved h) =
     (if h \<in> set (awaiting m)
      then playAudio_resolved (m\<lparr>awaiting := removeAll h (awaiting m)\<rparr>)
      else m)"
| "am_step m (PlayRejected h) =
     (if h \<in> set (awaiting m)
      then playAudio_rejected
             (m\<lparr>awaiting := removeAll h (awaiting m), elements := set_playing h False (elements m)\<rparr>)
      else m)"

definition am_run :: "am_event list \<Rightarrow> audio_manager \<Rightarrow> audio_manager" where
  "am_run es m = foldl am_step m es"

text \<open>
  The events of streamed, queued playback and the fragments a run hands to
  \<^verbatim>\<open>queueAudio\<close>; the same for AudioPlayer and \<^verbatim>\<open>playAudioChunk\<close>. A fragment is playable
  when \<^verbatim>\<open>playAudio\<close> gets as far as \<^verbatim>\<open>play()\<close> with it.
\<close>

fun queue_event :: "am_event \<Rightarrow> bool" where
  "queue_event (QueueAudio b mime) = True"
| "queue_event (AmEnded h) = True"
| "queue_event (AmError h) = True"
| "queue_event (AmPlaying h) = True"
| "queue_event (PlayResolved h) = True"
| "queue_event (PlayRejected h) = True"
| "queue_event e = False"

fun queued :: "am_event list \<Rightarrow> string option list" where
  "queued [] = []"
| "queued (QueueAudio b mime # es) = b # queued es"
| "queued (e # es) = queued es"

definition playable :: "string option list \<Rightarrow> string list" where
  "playable bs = map the (filter (\<lambda>b. \<not> falsy b \<and> atob_ok (the b)) bs)"

fun stream_event :: "player_event \<Rightarrow> bool" where
  "stream_event (PlayAudioChunk b) = True"
| "stream_event (AudioEnded h) = True"
| "stream_event (AudioError h) = True"
| "stream_event (AudioPlaying h) = True"
| "stream_event (TimerFires k) = True"
| "stream_event e = False"

fun chunks :: "player_event list \<Rightarrow> string list" where
  "chunks [] = []"
| "chunks (PlayAudioChunk b # es) = b # chunks es"
| "chunks (e # es) = chunks es"

text \<open>The playable fragments still waiting in the queue of an AudioManager.\<close>

definition pending :: "audio_manager \<Rightarrow> string list" where
  "pending m = playable (map audioB64 (audioQueue_am m))"

text \<open>
  AudioPlayer between \<^verbatim>\<open>initializeStreamingAudio\<close> and \<^verbatim>\<open>finalizeStreamingAudio\<close>,
  at rest: not muted, streaming, nothing left in the queue.
\<close>

definition streaming :: "audio_player \<Rightarrow> bool" where
  "streaming p = (\<not> isMuted p \<and> isStreaming p \<and> audioQueue p = [])"

text \<open>Every Audio element of the store has a volume attribute between 0 and 1.\<close>

definition volumes_ok :: "audio_elem list \<Rightarrow> bool" where
  "volumes_ok els = list_all (\<lambda>e. volume_in_range (el_volume e)) els"

text \<open>No element is playing but the one \<^verbatim>\<open>currentAudio\<close> refers to.\<close>

definition only_current :: "audio_manager \<Rightarrow> bool" where
  "only_current m = list_all (\<lambda>k. currentAudio m = Some k) (playing m)"

text \<open>
  The events of a run of AudioManager in which every fragment is playable and every
  playback comes to its end: no \<^verbatim>\<open>error\<close> event and no rejected \<^verbatim>\<open>play()\<close>. In such a
  run the queue is being drained: fragments wait only while an element is playing.
\<close>

fun playback_event :: "am_event \<Rightarrow> bool" where
  "playback_event (QueueAudio b mime) = (\<not> falsy b \<and> atob_ok (the b))"
| "playback_event (AmEnded h) = True"
| "playback_event (AmPlaying h) = True"
| "playback_event (PlayResolved h) = True"
| "playback_event e = False"

definition draining :: "audio_manager \<Rightarrow> bool" where
  "draining m =
     (volume_in_range (volume m)
      \<and> list_all (\<lambda>q. \<not> falsy (audioB64 q) \<and> atob_ok (the (audioB64 q))) (audioQueue_am m)
      \<and> (if isPlaying m then playing m \<noteq> [] else audioQueue_am m = []))"

text \<open>
  The order in which elements begin to play, against the order of the \<^verbatim>\<open>play()\<close> calls:
  the elements that have begun are those of \<open>started\<close> that are in \<open>begun\<close>, in the
  order of \<open>started\<close>. It is kept by a store in which a playing element is the one
  \<^verbatim>\<open>play()\<close> was called on last, and in which every handle in \<open>started\<close> is the handle
  of one element of the store.
\<close>

definition begins_follow_starts :: "'a browser_scheme \<Rightarrow> bool" where
  "begins_follow_starts b = (begun b = filter (\<lambda>x. x \<in> set (begun b)) (started b))"

definition playing_last :: "'a browser_scheme \<Rightarrow> bool" where
  "playing_last b =
     list_all (\<lambda>h. started b \<noteq> [] \<and> last (started b) = (h, src (elements b ! h))) (playing b)"

definition handles_fresh :: "'a browser_scheme \<Rightarrow> bool" where
  "handles_fresh b =
     (distinct (map fst (started b)) \<and> list_all (\<lambda>x. fst x < length (elements b)) (started b))"

definition begin_order :: "'a browser_scheme \<Rightarrow> bool" where
  "begin_order b = (handles_fresh b \<and> playing_last b \<and> begins_follow_starts b)"

text \<open>
  What a method can do to the store: nothing that matters for this order (it may add an
  element or stop one), or call \<^verbatim>\<open>play()\<close> on one new element \<open>h\<close>.
\<close>

definition quiet :: "'a browser_scheme \<Rightarrow> 'a browser_scheme \<Rightarrow> bool" where
  "quiet b b' =
     (started b' = started b \<and> begun b' = begun b \<and> length (elements b) \<le> length (elements b')
      \<and> list_all (\<lambda>k. src (elements b' ! k) = src (elements b ! k)) [0 ..< length (elements b)]
      \<and> list_all (is_playing (elements b)) (playing b'))"

definition starts_one :: "nat \<Rightarrow> 'a browser_scheme \<Rightarrow> 'a browser_scheme \<Rightarrow> bool" where
  "starts_one h b b' =
     (is_playing (elements b') h
      \<and> started b' = started b @ [(h, src (elements b' ! h))] \<and> begun b' = begun b
      \<and> length (elements b) \<le> h
      \<and> list_all (\<lambda>k. src (elements b' ! k) = src (elements b ! k)) [0 ..< length (elements b)])"

section \<open>Transports\<close>

subsection \<open>Sockets, timers and callbacks\<close>

text \<open>
  A message is a JavaScript object whose properties hold strings, as the messages of the
  wire protocol do: the list of its properties in order. A property it lacks reads as
  \<^verbatim>\<open>undefined\<close>, that is \<open>None\<close>. \<open>JSON_stringify\<close> stands for the text
  \<^verbatim>\<open>JSON.stringify\<close> makes of a message, a different text for a different message. What
  \<^verbatim>\<open>JSON.parse\<close> makes of a received text is \<open>None\<close> when it throws, and otherwise
  \<^verbatim>\<open>null\<close>, an object, or some other value (a number, a string, a boolean, an array),
  every property of which reads as \<^verbatim>\<open>undefined\<close>.
\<close>

type_synonym message = "(string \<times> string) list"

definition get_prop :: "message \<Rightarrow> string \<Rightarrow> string option" where
  "get_prop m k = map_of m k"

datatype frame = JSON_stringify message

datatype json = JNull | JOther | JObject message

datatype ready_state = CONNECTING | OPEN | CLOSING | CLOSED

record socket =
  readyState :: ready_state
  sent :: "frame list"

text \<open>
  The callbacks a transport invokes are the orchestrator's closures. The transport's
  part is which callback it calls with which argument, kept as the trace \<open>invoked\<close>:
  a connection-state subscriber or a message handler (each known by the number it was
  registered under) or one of the four callbacks a \<^verbatim>\<open>WebSocketManager\<close> is built with.
\<close>

datatype callback =
    ConnectionState nat string
  | Handler nat message
  | OnOpen
  | OnMessage json
  | OnClose nat
  | OnError

text \<open>
  \<open>sockets\<close> holds every WebSocket object created so far, a socket's handle being its
  position. \<open>scheduled\<close> is the trace of the delays given to \<^verbatim>\<open>setTimeout\<close>; the k-th
  call returns the handle k, and \<open>pending_timers\<close> holds the handles of the timers that
  have neither fired nor been cleared. Every timer of a transport calls \<^verbatim>\<open>connect()\<close>.
\<close>

record net = page +
  sockets :: "socket list"
  scheduled :: "nat list"
  pending_timers :: "nat list"
  invoked :: "callback list"

definition new_WebSocket :: "'a net_scheme \<Rightarrow> 'a net_scheme" where
  "new_WebSocket n = n\<lparr>sockets := sockets n @ [\<lparr>readyState = CONNECTING, sent = []\<rparr>]\<rparr>"

definition set_readyState :: "nat \<Rightarrow> ready_state \<Rightarrow> 'a net_scheme \<Rightarrow> 'a net_scheme" where
  "set_readyState i r n =
     (if i < length (sockets n)
      then n\<lparr>sockets := (sockets n)[i := (sockets n ! i)\<lparr>readyState := r\<rparr>]\<rparr>
      else n)"

definition state_of :: "'a net_scheme \<Rightarrow> nat \<Rightarrow> ready_state option" where
  "state_of n i = (if i < length (sockets n) then Some (readyState (sockets n ! i)) else None)"

text \<open>\<^verbatim>\<open>close()\<close> starts the closing handshake of a socket that is connecting or open.\<close>

definition ws_close :: "nat \<Rightarrow> 'a net_scheme \<Rightarrow> 'a net_scheme" where
  "ws_close i n =
     (if state_of n i = Some CONNECTING \<or> state_of n i = Some OPEN
      then set_readyState i CLOSING n
      else n)"

text \<open>
  \<^verbatim>\<open>send()\<close> throws on a socket that is still connecting, transmits on an open one and
  silently drops the data on one that is closing or closed.
\<close>

definition ws_send :: "frame \<Rightarrow> socket \<Rightarrow> js_error + socket" where
  "ws_send f s =
     (case readyState s of
        CONNECTING \<Rightarrow> Inl InvalidStateError
      | OPEN \<Rightarrow> Inr (s\<lparr>sent := sent s @ [f]\<rparr>)
      | CLOSING \<Rightarrow> Inr s
      | CLOSED \<Rightarrow> Inr s)"

text \<open>The test \<^verbatim>\<open>this.ws && this.ws.readyState === WebSocket.OPEN\<close>.\<close>

definition socket_open :: "'a net_scheme \<Rightarrow> nat option \<Rightarrow> bool" where
  "socket_open n w = (case w of None \<Rightarrow> False | Some i \<Rightarrow> state_of n i = Some OPEN)"

definition setTimeout :: "nat \<Rightarrow> 'a net_scheme \<Rightarrow> 'a net_scheme" where
  "setTimeout delay n =
     n\<lparr>scheduled := scheduled n @ [delay],
       pending_timers := pending_timers n @ [length (scheduled n)]\<rparr>"

definition clearTimeout :: "nat \<Rightarrow> 'a net_scheme \<Rightarrow> 'a net_scheme" where
  "clearTimeout t n = n\<lparr>pending_timers := removeAll t (pending_timers n)\<rparr>"

definition invoke :: "callback \<Rightarrow> 'a net_scheme \<Rightarrow> 'a net_scheme" where
  "invoke cb n = n\<lparr>invoked := invoked n @ [cb]\<rparr>"

text \<open>
  The events the browser delivers to a transport. A socket event is delivered to the
  handlers \<^verbatim>\<open>connect()\<close> set on that socket (the same closures for every socket of a
  transport): \<^verbatim>\<open>open\<close> on a connecting socket, which is open from then on; a message on
  a socket that is open or closing; \<^verbatim>\<open>error\<close> and \<^verbatim>\<open>close\<close> (with its close code) on
  a socket that is not closed yet, \<^verbatim>\<open>close\<close> leaving it closed. A pending timer may fire,
  which calls \<^verbatim>\<open>connect()\<close>. Any other event does not occur and changes nothing.
\<close>

datatype net_event =
    SocketOpen nat
  | SocketMessage nat "json option"
  | SocketError nat
  | SocketClose nat nat
  | ReconnectTimer nat

fun net_deliver ::
  "('a net_scheme \<Rightarrow> 'a net_scheme) \<Rightarrow> (json option \<Rightarrow> 'a net_scheme \<Rightarrow> 'a net_scheme) \<Rightarrow>
   ('a net_scheme \<Rightarrow> 'a net_scheme) \<Rightarrow> (nat \<Rightarrow> 'a net_scheme \<Rightarrow> 'a net_scheme) \<Rightarrow>
   ('a net_scheme \<Rightarrow> 'a net_scheme) \<Rightarrow> 'a net_scheme \<Rightarrow> net_event \<Rightarrow> 'a net_scheme" where
  "net_deliver onopen onmessage onerror onclose reconnect n (SocketOpen i) =
     (if state_of n i = Some CONNECTING then onopen (set_readyState i OPEN n) else n)"
| "net_deliver onopen onmessage onerror onclose reconnect n (SocketMessage i d) =
     (if state_of n i = Some OPEN \<or> state_of n i = Some CLOSING then onmessage d n else n)"
| "net_deliver onopen onmessage onerror onclose reconnect n (SocketError i) =
     (if i < length (sockets n) \<and> state_of n i \<noteq> Some CLOSED then onerror n else n)"
| "net_deliver onopen onmessage onerror onclose reconnect n (SocketClose i code) =
     (if i < length (sockets n) \<and> state_of n i \<noteq> Some CLOSED
      then onclose code (set_readyState i CLOSED n)
      else n)"
| "net_deliver onopen onmessage onerror onclose reconnect n (ReconnectTimer t) =
     (if t \<in> set (pending_timers n)
      then reconnect (n\<lparr>pending_timers := removeAll t (pending_timers n)\<rparr>)
      else n)"

subsection \<open>WebSocketClient (websocket-client.js)\<close>

text \<open>
  The class as in the variant that keeps the handle of its reconnect timer in
  \<^verbatim>\<open>reconnectTimeout\<close>; the other variant differs only in not keeping the handle (and so
  not clearing the timer in \<^verbatim>\<open>disconnect\<close>) and in logging less. A timer handle is
  truthy, as the handles browsers give are. \<open>states\<close> is the trace of the states given
  to \<^verbatim>\<open>notifyConnectionState\<close>, whoever is subscribed. The handlers \<^verbatim>\<open>connect()\<close> sets
  on a socket are \<open>client_onopen\<close>, \<open>client_onmessage\<close>, \<open>client_onerror\<close> and
  \<open>client_onclose\<close>.
\<close>

record ws_client = net +
  ws :: "nat option"
  reconnectAttempts :: nat
  maxReconnectAttempts :: nat
  messageHandlers :: "string \<Rightarrow> nat option"
  connectionStateCallbacks :: "nat list"
  reconnectTimeout :: "nat option"
  states :: "string list"

definition new_WebSocketClient :: ws_client where
  "new_WebSocketClient =
     \<lparr>console = [], sockets = [], scheduled = [], pending_timers = [], invoked = [],
      ws = None, reconnectAttempts = 0, maxReconnectAttempts = 5,
      messageHandlers = (\<lambda>t. None), connectionStateCallbacks = [],
      reconnectTimeout = None, states = []\<rparr>"

definition notifyConnectionState :: "string \<Rightarrow> ws_client \<Rightarrow> ws_client" where
  "notifyConnectionState st c =
     c\<lparr>states := states c @ [st],
       invoked := invoked c @ map (\<lambda>cb. ConnectionState cb st) (connectionStateCallbacks c)\<rparr>"

definition connect :: "ws_client \<Rightarrow> ws_client" where
  "connect c =
     (let c1 = console_log Log ''Connecting to WebSocket: '' c;
          h = length (sockets c1)
      in (new_WebSocket c1)\<lparr>ws := Some h\<rparr>)"

definition client_onopen :: "ws_client \<Rightarrow> ws_client" where
  "client_onopen c =
     notifyConnectionState ''connected''
       ((console_log Log ''WebSocket connected'' c)\<lparr>reconnectAttempts := 0\<rparr>)"

text \<open>
  \<^verbatim>\<open>handleMessage\<close> reads \<^verbatim>\<open>data.type\<close>, which throws when \<^verbatim>\<open>data\<close> is \<^verbatim>\<open>null\<close>; the
  \<^verbatim>\<open>try\<close> of \<^verbatim>\<open>onmessage\<close> catches that, as it catches a text that does not parse.
\<close>

definition handleMessage :: "json \<Rightarrow> ws_client \<Rightarrow> js_error + ws_client" where
  "handleMessage d c =
     (case d of
        JNull \<Rightarrow> Inl TypeError
      | JOther \<Rightarrow> Inr (console_log Warn ''Unhandled message type:'' c)
      | JObject m \<Rightarrow>
          (case (case get_prop m ''type'' of None \<Rightarrow> None | Some t \<Rightarrow> messageHandlers c t) of
             Some handler \<Rightarrow> Inr (invoke (Handler handler m) c)
           | None \<Rightarrow> Inr (console_log Warn ''Unhandled message type:'' c)))"

definition client_onmessage :: "json option \<Rightarrow> ws_client \<Rightarrow> ws_client" where
  "client_onmessage d c =
     (case d of
        None \<Rightarrow> console_log Err ''Error parsing WebSocket message:'' c
      | Some v \<Rightarrow>
          (case handleMessage v c of
             Inl e \<Rightarrow> console_log Err ''Error parsing WebSocket message:'' c
           | Inr c1 \<Rightarrow> c1))"

definition client_onerror :: "ws_client \<Rightarrow> ws_client" where
  "client_onerror c = notifyConnectionState ''error'' (console_log Err ''WebSocket error:'' c)"

definition attemptReconnect :: "ws_client \<Rightarrow> ws_client" where
  "attemptReconnect c =
     (if reconnectAttempts c < maxReconnectAttempts c then
        (let c1 = c\<lparr>reconnectAttempts := reconnectAttempts c + 1\<rparr>;
             delay = 2000 * reconnectAttempts c1;
             c2 = console_log Log ''Attempting to reconnect... ('' c1;
             c3 = notifyConnectionState ''reconnecting'' c2;
             t = length (scheduled c3)
         in (setTimeout delay c3)\<lparr>reconnectTimeout := Some t\<rparr>)
      else
        notifyConnectionState ''failed''
          (console_log Err ''Max reconnection attempts reached'' c))"

definition client_onclose :: "ws_client \<Rightarrow> ws_client" where
  "client_onclose c =
     attemptReconnect
       (notifyConnectionState ''disconnected''
          (console_log Log ''WebSocket connection closed'' c))"

definition onMessage :: "string \<Rightarrow> nat \<Rightarrow> ws_client \<Rightarrow> ws_client" where
  "onMessage t handler c = c\<lparr>messageHandlers := (messageHandlers c)(t := Some handler)\<rparr>"

definition onConnectionStateChange :: "nat \<Rightarrow> ws_client \<Rightarrow> ws_client" where
  "onConnectionStateChange cb c = c\<lparr>connectionStateCallbacks := connectionStateCallbacks c @ [cb]\<rparr>"

definition sendMessage :: "message \<Rightarrow> ws_client \<Rightarrow> js_error + ws_client \<times> bool" where
  "sendMessage msg c =
     (if socket_open c (ws c) then
        (case ws_send (JSON_stringify msg) (sockets c ! the (ws c)) of
           Inl e \<Rightarrow> Inl e
         | Inr s \<Rightarrow> Inr (c\<lparr>sockets := (sockets c)[the (ws c) := s]\<rparr>, True))
      else Inr (console_log Warn ''WebSocket not connected, cannot send message:'' c, False))"

definition disconnect :: "ws_client \<Rightarrow> ws_client" where
  "disconnect c =
     (let c1 = (case reconnectTimeout c of
                  Some t \<Rightarrow> (clearTimeout t c)\<lparr>reconnectTimeout := None\<rparr>
                | None \<Rightarrow> c)
      in case ws c1 of
           Some i \<Rightarrow> (ws_close i c1)\<lparr>ws := None\<rparr>
         | None \<Rightarrow> c1)"

datatype client_event =
    Connect
  | Disconnect
  | SendMessage message
  | RegisterHandler string nat
  | Subscribe nat
  | Net net_event

fun client_step :: "ws_client \<Rightarrow> client_event \<Rightarrow> ws_client" where
  "client_step c Connect = connect c"
| "client_step c Disconnect = disconnect c"
| "client_step c (SendMessage m) = (case sendMessage m c of Inl e \<Rightarrow> c | Inr r \<Rightarrow> fst r)"
| "client_step c (RegisterHandler t h) = onMessage t h c"
| "client_step c (Subscribe cb) = onConnectionStateChange cb c"
| "client_step c (Net e) =
     net_deliver client_onopen client_onmessage client_onerror (\<lambda>code. client_onclose) connect c e"

definition client_run :: "client_event list \<Rightarrow> ws_client \<Rightarrow> ws_client" where
  "client_run es c = foldl client_step c es"

text \<open>
  The events of a connection that keeps failing: sockets close and reconnect timers
  fire, and no socket ever opens. \<open>closures\<close> counts the close events delivered so far,
  one for every socket that is closed.
\<close>

fun failure_event :: "client_event \<Rightarrow> bool" where
  "failure_event (Net (SocketClose i code)) = True"
| "failure_event (Net (ReconnectTimer t)) = True"
| "failure_event e = False"

definition closures :: "'a net_scheme \<Rightarrow> nat" where
  "closures n = length (filter (\<lambda>s. readyState s = CLOSED) (sockets n))"

text \<open>What the transport announces at its k-th closure in a row, and the delay it asks for.\<close>

definition announced :: "nat \<Rightarrow> string list" where
  "announced k = [''disconnected'', if k \<le> 5 then ''reconnecting'' else ''failed'']"

definition backoff :: "nat \<Rightarrow> nat list" where
  "backoff n = map (\<lambda>k. 2000 * k) [1 ..< Suc (min n 5)]"

subsection \<open>WebSocketManager (websocket-manager.js of the streaming front end)\<close>

text \<open>
  Fields and methods whose names WebSocketClient has already taken carry the mark
  \<open>wm\<close>. The four callbacks the constructor is given are \<open>OnOpen\<close>, \<open>OnMessage\<close>,
  \<open>OnClose\<close> and \<open>OnError\<close> of the trace.
\<close>

record ws_manager = net +
  ws_wm :: "nat option"
  isConnected :: bool
  reconnectAttempts_wm :: nat
  maxReconnectAttempts_wm :: nat
  reconnectDelay :: nat

definition new_WebSocketManager :: ws_manager where
  "new_WebSocketManager =
     \<lparr>console = [], sockets = [], scheduled = [], pending_timers = [], invoked = [],
      ws_wm = None, isConnected = False, reconnectAttempts_wm = 0,
      maxReconnectAttempts_wm = 5, reconnectDelay = 3000\<rparr>"

definition wm_connect :: "ws_manager \<Rightarrow> ws_manager" where
  "wm_connect m =
     (let m1 = console_log Log ''Connecting to WebSocket:'' m;
          h = length (sockets m1)
      in (new_WebSocket m1)\<lparr>ws_wm := Some h\<rparr>)"

definition wm_onopen :: "ws_manager \<Rightarrow> ws_manager" where
  "wm_onopen m =
     invoke OnOpen
       (console_log Log ''WebSocket connected successfully''
          (m\<lparr>isConnected := True, reconnectAttempts_wm := 0\<rparr>))"

text \<open>
  The \<^verbatim>\<open>try\<close> of \<^verbatim>\<open>onmessage\<close> catches a text that does not parse and the
  \<^verbatim>\<open>message.type\<close> of a \<^verbatim>\<open>null\<close>.
\<close>

definition wm_onmessage :: "json option \<Rightarrow> ws_manager \<Rightarrow> ws_manager" where
  "wm_onmessage d m =
     (case d of
        None \<Rightarrow> console_log Err ''Error parsing WebSocket message:'' m
      | Some JNull \<Rightarrow> console_log Err ''Error parsing WebSocket message:'' m
      | Some v \<Rightarrow> invoke (OnMessage v) (console_log Log ''Received message:'' m))"

definition wm_onclose :: "nat \<Rightarrow> ws_manager \<Rightarrow> ws_manager" where
  "wm_onclose code m =
     (let m1 = m\<lparr>isConnected := False\<rparr>;
          m2 = console_log Log ''WebSocket closed:'' m1;
          m3 = invoke (OnClose code) m2
      in if code \<noteq> 1000 \<and> reconnectAttempts_wm m3 < maxReconnectAttempts_wm m3 then
           (let m4 = m3\<lparr>reconnectAttempts_wm := reconnectAttempts_wm m3 + 1\<rparr>;
                m5 = console_log Log ''Attempting to reconnect ('' m4
            in setTimeout (reconnectDelay m5) m5)
         else m3)"

definition wm_onerror :: "ws_manager \<Rightarrow> ws_manager" where
  "wm_onerror m = invoke OnError (console_log Err ''WebSocket error:'' m)"

definition wm_disconnect :: "ws_manager \<Rightarrow> ws_manager" where
  "wm_disconnect m =
     (let m1 = (case ws_wm m of
                  Some i \<Rightarrow> (ws_close i m)\<lparr>ws_wm := None\<rparr>
                | None \<Rightarrow> m)
      in m1\<lparr>isConnected := False\<rparr>)"

definition wm_sendMessage :: "message \<Rightarrow> ws_manager \<Rightarrow> ws_manager \<times> bool" where
  "wm_sendMessage msg m =
     (if socket_open m (ws_wm m) then
        (let m1 = console_log Log ''Sending WebSocket message:'' m
         in case ws_send (JSON_stringify msg) (sockets m1 ! the (ws_wm m1)) of
              Inl e \<Rightarrow> (console_log Err ''Error sending WebSocket message:'' m1, False)
            | Inr s \<Rightarrow> (m1\<lparr>sockets := (sockets m1)[the (ws_wm m1) := s]\<rparr>, True))
      else (console_log Err ''WebSocket not connected. Ready state:'' m, False))"

text \<open>
  \<^verbatim>\<open>String.prototype.trim\<close> strips the white space and line terminator characters of
  ECMAScript from both ends of a text. Text is a list of bytes, a character outside
  ASCII being its UTF-8 bytes, so these characters are one, two or three bytes long:
  tab, line feed, vertical tab, form feed, carriage return and space; U+00A0; and
  U+1680, U+2000 to U+200A, U+2028, U+2029, U+202F, U+205F, U+3000 and U+FEFF.
  None of these sequences begins with a continuation byte, so in well-formed UTF-8
  such a sequence at the end of a text is a whole character, and the characters can be
  taken from the end of the text as from its start.
\<close>

definition js_space :: "char \<Rightarrow> bool" where
  "js_space c = (c \<in> set [CHR 0x09, CHR 0x0A, CHR 0x0B, CHR 0x0C, CHR 0x0D, CHR 0x20])"

definition js_space2 :: "char \<Rightarrow> char \<Rightarrow> bool" where
  "js_space2 a b = (a = CHR 0xC2 \<and> b = CHR 0xA0)"

definition js_space3 :: "char \<Rightarrow> char \<Rightarrow> char \<Rightarrow> bool" where
  "js_space3 a b c =
     ((a = CHR 0xE1 \<and> b = CHR 0x9A \<and> c = CHR 0x80)
      \<or> (a = CHR 0xE2 \<and> b = CHR 0x80 \<and>
            (c \<in> set [CHR 0x80, CHR 0x81, CHR 0x82, CHR 0x83, CHR 0x84, CHR 0x85, CHR 0x86,
                        CHR 0x87, CHR 0x88, CHR 0x89, CHR 0x8A, CHR 0xA8, CHR 0xA9, CHR 0xAF]))
      \<or> (a = CHR 0xE2 \<and> b = CHR 0x81 \<and> c = CHR 0x9F)
      \<or> (a = CHR 0xE3 \<and> b = CHR 0x80 \<and> c = CHR 0x80)
      \<or> (a = CHR 0xEF \<and> b = CHR 0xBB \<and> c = CHR 0xBF))"

fun trimStart :: "string \<Rightarrow> string" where
  "trimStart (a # b # c # s) =
     (if js_space a then trimStart (b # c # s)
      else if js_space2 a b then trimStart (c # s)
      else if js_space3 a b c then trimStart s
      else a # b # c # s)"
| "trimStart [a, b] = (if js_space a then trimStart [b] else if js_space2 a b then [] else [a, b])"
| "trimStart [a] = (if js_space a then [] else [a])"
| "trimStart [] = []"

text \<open>The same from the end, on the reversed text: the last byte of a character comes first.\<close>

fun trimEnd_rev :: "string \<Rightarrow> string" where
  "trimEnd_rev (c # b # a # s) =
     (if js_space c then trimEnd_rev (b # a # s)
      else if js_space2 b c then trimEnd_rev (a # s)
      else if js_space3 a b c then trimEnd_rev s
      else c # b # a # s)"
| "trimEnd_rev [c, b] = (if js_space c then trimEnd_rev [b] else if js_space2 b c then [] else [c, b])"
| "trimEnd_rev [c] = (if js_space c then [] else [c])"
| "trimEnd_rev [] = []"

definition trimEnd :: "string \<Rightarrow> string" where
  "trimEnd s = rev (trimEnd_rev (rev s))"

definition trim :: "string \<Rightarrow> string" where
  "trim s = trimEnd (trimStart s)"

definition sendUserSpeech :: "string \<Rightarrow> ws_manager \<Rightarrow> ws_manager \<times> bool" where
  "sendUserSpeech txt m = wm_sendMessage [(''type'', ''user_speech''), (''content'', trim txt)] m"

definition ping :: "ws_manager \<Rightarrow> ws_manager" where
  "ping m =
     (if socket_open m (ws_wm m) then
        (case ws_send (JSON_stringify [(''type'', ''ping'')]) (sockets m ! the (ws_wm m)) of
           Inl e \<Rightarrow> console_log Err ''Ping failed:'' m
         | Inr s \<Rightarrow> m\<lparr>sockets := (sockets m)[the (ws_wm m) := s]\<rparr>)
      else m)"

datatype wm_event =
    WmConnect
  | WmDisconnect
  | WmSendMessage message
  | WmNet net_event

fun wm_step :: "ws_manager \<Rightarrow> wm_event \<Rightarrow> ws_manager" where
  "wm_step m WmConnect = wm_connect m"
| "wm_step m WmDisconnect = wm_disconnect m"
| "wm_step m (WmSendMessage msg) = fst (wm_sendMessage msg m)"
| "wm_step m (WmNet e) = net_deliver wm_onopen wm_onmessage wm_onerror wm_onclose wm_connect m e"

definition wm_run :: "wm_event list \<Rightarrow> ws_manager \<Rightarrow> ws_manager" where
  "wm_run es m = foldl wm_step m es"

text \<open>
  The state of a WebSocketClient whose connection keeps failing, in terms of the closures
  so far; six closures in a row, each but the last followed by the expiry of the timer it
  set; and the socket store after one more frame went out on a socket.
\<close>

definition failing :: "ws_client \<Rightarrow> bool" where
  "failing c =
     (maxReconnectAttempts c = 5 \<and> reconnectAttempts c = min (closures c) 5
      \<and> scheduled c = backoff (closures c)
      \<and> states c = concat (map announced [1 ..< Suc (closures c)]))"

definition six_failures :: "client_event list" where
  "six_failures =
     [Net (SocketClose 0 1006), Net (ReconnectTimer 0), Net (SocketClose 1 1006), Net (ReconnectTimer 1),
      Net (SocketClose 2 1006), Net (ReconnectTimer 2), Net (SocketClose 3 1006), Net (ReconnectTimer 3),
      Net (SocketClose 4 1006), Net (ReconnectTimer 4), Net (SocketClose 5 1006)]"

definition transmit :: "frame \<Rightarrow> nat \<Rightarrow> socket list \<Rightarrow> socket list" where
  "transmit f i socks = socks[i := (socks ! i)\<lparr>sent := sent (socks ! i) @ [f]\<rparr>]"

section \<open>UIManager (ui-manager.js of the streaming front end)\<close>

text \<open>
  The part of the page the class writes to. A node is a \<^verbatim>\<open>div\<close> the class created; all
  nodes created so far are kept in \<open>nodes\<close>, a node's handle being its position, and the
  chat area holds the handles of its children in document order. Each of the five
  elements the constructor looks up is \<open>None\<close> when the page lacks it. Scrolling is not
  modelled. \<open>clock\<close> is what \<^verbatim>\<open>new Date().toLocaleTimeString()\<close> returns.

  Text is a list of bytes, a character outside ASCII being its UTF-8 bytes. Assigning
  \<^verbatim>\<open>undefined\<close> to \<^verbatim>\<open>textContent\<close> empties the node, while a template literal prints it
  as the word \<^verbatim>\<open>undefined\<close>.
\<close>

definition text_of :: "string option \<Rightarrow> string" where
  "text_of v = (case v of None \<Rightarrow> [] | Some s \<Rightarrow> s)"

definition template :: "string option \<Rightarrow> string" where
  "template v = (case v of None \<Rightarrow> ''undefined'' | Some s \<Rightarrow> s)"

definition cross_mark :: string where
  "cross_mark = [CHR 0xE2, CHR 0x9D, CHR 0x8C]"

definition robot_face :: string where
  "robot_face = [CHR 0xF0, CHR 0x9F, CHR 0xA4, CHR 0x96]"


definition microphone :: string where
  "microphone = [CHR 0xF0, CHR 0x9F, CHR 0x8E, CHR 0xA4]"

definition telephone :: string where
  "telephone = [CHR 0xF0, CHR 0x9F, CHR 0x93, CHR 0x9E]"

definition dquote :: string where
  "dquote = [CHR 0x22]"

record dom_node =
  className :: string
  textContent :: string
  node_id :: "string option"
  title :: "string option"

record msg_options =
  includeTimestamp :: "bool option"
  additionalClasses :: "string option"
  option_id :: "string option"

definition no_options :: msg_options where
  "no_options = \<lparr>includeTimestamp = None, additionalClasses = None, option_id = None\<rparr>"

record history_entry =
  content :: "string option"
  sender :: string
  timestamp :: string
  options :: msg_options

record ui_manager = page +
  nodes :: "dom_node list"
  chatArea :: "nat list option"
  callButton :: "(string \<times> string) option"
  callStatus :: "string option"
  status :: "string option"
  connectionIndicator :: "string option"
  conversationHistory :: "history_entry list"
  currentAiMessage :: "nat option"
  liveTranscriptionElement :: "nat option"
  clock :: string

text \<open>The constructor on a page that has the five elements, the chat area empty.\<close>

definition new_UIManager :: ui_manager where
  "new_UIManager =
     \<lparr>console = [], nodes = [], chatArea = Some [], callButton = Some ([], []),
      callStatus = Some [], status = Some [], connectionIndicator = Some [],
      conversationHistory = [], currentAiMessage = None, liveTranscriptionElement = None,
      clock = ''12:00:00''\<rparr>"

definition createElement :: "dom_node \<Rightarrow> ui_manager \<Rightarrow> ui_manager" where
  "createElement d u = u\<lparr>nodes := nodes u @ [d]\<rparr>"

definition appendChild :: "nat \<Rightarrow> ui_manager \<Rightarrow> ui_manager" where
  "appendChild h u =
     (case chatArea u of
        Some kids \<Rightarrow> u\<lparr>chatArea := Some (removeAll h kids @ [h])\<rparr>
      | None \<Rightarrow> u)"

definition remove_node :: "nat \<Rightarrow> ui_manager \<Rightarrow> ui_manager" where
  "remove_node h u =
     (case chatArea u of
        Some kids \<Rightarrow> u\<lparr>chatArea := Some (removeAll h kids)\<rparr>
      | None \<Rightarrow> u)"

definition update_node :: "nat \<Rightarrow> (dom_node \<Rightarrow> dom_node) \<Rightarrow> ui_manager \<Rightarrow> ui_manager" where
  "update_node h f u = (if h < length (nodes u) then u\<lparr>nodes := (nodes u)[h := f (nodes u ! h)]\<rparr> else u)"

text \<open>\<^verbatim>\<open>document.getElementById\<close>, for an id only nodes of the chat area carry.\<close>

definition getElementById :: "string \<Rightarrow> ui_manager \<Rightarrow> nat option" where
  "getElementById i u =
     (case chatArea u of
        Some kids \<Rightarrow> find (\<lambda>h. h < length (nodes u) \<and> node_id (nodes u ! h) = Some i) kids
      | None \<Rightarrow> None)"

definition updateConnectionStatus :: "string \<Rightarrow> bool \<Rightarrow> ui_manager \<Rightarrow> ui_manager" where
  "updateConnectionStatus msg isConn u =
     (let u1 = (case status u of Some s \<Rightarrow> u\<lparr>status := Some msg\<rparr> | None \<Rightarrow> u)
      in case connectionIndicator u1 of
           Some c \<Rightarrow> u1\<lparr>connectionIndicator :=
                       Some (''connection-indicator '' @ (if isConn then [] else ''disconnected''))\<rparr>
         | None \<Rightarrow> u1)"

definition updateCallStatus :: "string \<Rightarrow> ui_manager \<Rightarrow> ui_manager" where
  "updateCallStatus msg u = (case callStatus u of Some s \<Rightarrow> u\<lparr>callStatus := Some msg\<rparr> | None \<Rightarrow> u)"

definition updateCallButton :: "bool \<Rightarrow> ui_manager \<Rightarrow> ui_manager" where
  "updateCallButton onCall u =
     (case callButton u of
        None \<Rightarrow> u
      | Some b \<Rightarrow>
          if onCall then u\<lparr>callButton := Some (''call-button active'', telephone @ '' End Call'')\<rparr>
          else u\<lparr>callButton := Some (''call-button inactive'', telephone @ '' Start Call'')\<rparr>)"

definition addMessage :: "string option \<Rightarrow> string \<Rightarrow> msg_options \<Rightarrow> ui_manager \<Rightarrow> ui_manager" where
  "addMessage c s opts u =
     (case chatArea u of
        None \<Rightarrow> u
      | Some kids \<Rightarrow>
          (let h = length (nodes u);
               d0 = \<lparr>className = ''message '' @ s, textContent = text_of c, node_id = None, title = None\<rparr>;
               d1 = (if includeTimestamp opts \<noteq> Some False then d0\<lparr>title := Some (clock u)\<rparr> else d0);
               d2 = (if \<not> falsy (additionalClasses opts)
                     then d1\<lparr>className := className d1 @ '' '' @ the (additionalClasses opts)\<rparr> else d1);
               d3 = (if \<not> falsy (option_id opts) then d2\<lparr>node_id := option_id opts\<rparr> else d2);
               u1 = appendChild h (createElement d3 u)
           in u1\<lparr>conversationHistory := conversationHistory u1 @
                  [\<lparr>content = c, sender = s, timestamp = clock u1, options = opts\<rparr>]\<rparr>))"

definition addSystemMessage :: "string option \<Rightarrow> ui_manager \<Rightarrow> ui_manager" where
  "addSystemMessage c u = addMessage c ''system'' no_options u"

definition addErrorMessage :: "string option \<Rightarrow> ui_manager \<Rightarrow> ui_manager" where
  "addErrorMessage c u = addMessage (Some (cross_mark @ '' '' @ template c)) ''error'' no_options u"

definition addUserMessage :: "string option \<Rightarrow> ui_manager \<Rightarrow> ui_manager" where
  "addUserMessage c u = addMessage (Some (''You: '' @ template c)) ''user'' no_options u"

definition startAiResponse :: "ui_manager \<Rightarrow> ui_manager" where
  "startAiResponse u =
     (case chatArea u of
        None \<Rightarrow> u
      | Some kids \<Rightarrow>
          (let h = length (nodes u);
               d = \<lparr>className = ''message ai current-response'', textContent = [],
                    node_id = Some ''current-ai-response'', title = None\<rparr>
           in appendChild h ((createElement d u)\<lparr>currentAiMessage := Some h\<rparr>)))"

definition updateAiResponse :: "string option \<Rightarrow> ui_manager \<Rightarrow> ui_manager" where
  "updateAiResponse fullText u =
     (case currentAiMessage u of
        Some h \<Rightarrow> update_node h (\<lambda>d. d\<lparr>textContent := text_of fullText\<rparr>) u
      | None \<Rightarrow> u)"

definition finishAiResponse :: "string option \<Rightarrow> ui_manager \<Rightarrow> ui_manager" where
  "finishAiResponse finalText u =
     (case currentAiMessage u of
        Some h \<Rightarrow>
          (update_node h
             (\<lambda>d. d\<lparr>className := ''message ai'', textContent := ''AI: '' @ template finalText,
                    node_id := None\<rparr>) u)
          \<lparr>currentAiMessage := None\<rparr>
      | None \<Rightarrow> u)"

definition removeLiveTranscription :: "ui_manager \<Rightarrow> ui_manager" where
  "removeLiveTranscription u =
     (let u1 = (case liveTranscriptionElement u of
                  Some h \<Rightarrow> (remove_node h u)\<lparr>liveTranscriptionElement := None\<rparr>
                | None \<Rightarrow> u)
      in case getElementById ''live-transcription'' u1 of
           Some existingLive \<Rightarrow> remove_node existingLive u1
         | None \<Rightarrow> u1)"

definition showLiveTranscription :: "string \<Rightarrow> ui_manager \<Rightarrow> ui_manager" where
  "showLiveTranscription t u =
     (let u1 = removeLiveTranscription u
      in case chatArea u1 of
           None \<Rightarrow> u1
         | Some kids \<Rightarrow>
             (let h = length (nodes u1);
                  d = \<lparr>className = ''message live-transcription'',
                       textContent = microphone @ '' '' @ dquote @ t @ dquote,
                       node_id = Some ''live-transcription'', title = None\<rparr>
              in appendChild h ((createElement d u1)\<lparr>liveTranscriptionElement := Some h\<rparr>)))"

definition clearChatArea :: "ui_manager \<Rightarrow> ui_manager" where
  "clearChatArea u =
     (let u1 = (case chatArea u of Some kids \<Rightarrow> u\<lparr>chatArea := Some []\<rparr> | None \<Rightarrow> u)
      in u1\<lparr>conversationHistory := [], currentAiMessage := None, liveTranscriptionElement := None\<rparr>)"

definition getConversationHistory :: "ui_manager \<Rightarrow> history_entry list" where
  "getConversationHistory u = conversationHistory u"

text \<open>The nodes shown in the chat area, in document order.\<close>

definition entries :: "ui_manager \<Rightarrow> dom_node list" where
  "entries u = (case chatArea u of Some kids \<Rightarrow> map (\<lambda>h. nodes u ! h) kids | None \<Rightarrow> [])"

text \<open>
  A streamed assistant response as the orchestrator drives it: \<^verbatim>\<open>startAiResponse\<close>, one
  \<^verbatim>\<open>updateAiResponse\<close> for each cumulative text, then \<^verbatim>\<open>finishAiResponse\<close>.
\<close>

definition streamed_response :: "string list \<Rightarrow> string \<Rightarrow> ui_manager \<Rightarrow> ui_manager" where
  "streamed_response updates final u =
     finishAiResponse (Some final)
       (foldl (\<lambda>v t. updateAiResponse (Some t) v) (startAiResponse u) updates)"

text \<open>The page has a chat area, and every child of it is a node that exists.\<close>

definition well_formed :: "ui_manager \<Rightarrow> bool" where
  "well_formed u =
     (case chatArea u of Some kids \<Rightarrow> list_all (\<lambda>h. h < length (nodes u)) kids | None \<Rightarrow> False)"

section \<open>SpeechRecognitionManager (speech-recognition.js of the streaming front end)\<close>

text \<open>
  A \<^verbatim>\<open>result\<close> event of the recognition service: the list of results so far, each with
  the transcript of its first alternative and whether it is final, and the position of
  the first result that changed. The handler's loop runs over the results from that
  position on; what the handler then does is call back, so it is modelled by the list of
  the callbacks it makes, in order.
\<close>

record speech_result =
  transcript :: string
  isFinal :: bool

record recognition_event =
  resultIndex :: nat
  results :: "speech_result list"

fun accumulate :: "speech_result list \<Rightarrow> string \<times> string \<Rightarrow> string \<times> string" where
  "accumulate [] acc = acc"
| "accumulate (r # rs) (interimTranscript, finalTranscript) =
     (if isFinal r
      then accumulate rs (interimTranscript, finalTranscript @ transcript r @ '' '')
      else accumulate rs (interimTranscript @ transcript r, finalTranscript))"

datatype speech_callback = OnInterimResult string | OnResult string

definition onresult :: "recognition_event \<Rightarrow> speech_callback list" where
  "onresult ev =
     (let acc = accumulate (drop (resultIndex ev) (results ev)) ([], []);
          interimTranscript = fst acc;
          finalTranscript = snd acc
      in (if trim interimTranscript \<noteq> [] then [OnInterimResult (trim interimTranscript)] else [])
         @ (if trim finalTranscript \<noteq> [] then [OnResult (trim finalTranscript)] else []))"

section \<open>VoiceCall (voice-call.js)\<close>

text \<open>
  The orchestrator owns one of each manager. The speech recognition manager keeps no
  state that the handlers modelled here read. \<open>console_vc\<close> holds what the class itself
  writes to the console.
\<close>

record voice_call =
  console_vc :: "log_entry list"
  ui :: ui_manager
  audio_vc :: audio_manager
  websocket :: ws_manager
  isOnCall :: bool
  isConnected_vc :: bool

definition vc_log :: "log_level \<Rightarrow> string \<Rightarrow> voice_call \<Rightarrow> voice_call" where
  "vc_log l s vc = vc\<lparr>console_vc := console_vc vc @ [(l, s)]\<rparr>"


definition handleWebSocketOpen :: "voice_call \<Rightarrow> voice_call" where
  "handleWebSocketOpen vc =
     vc\<lparr>isConnected_vc := True,
        ui := addSystemMessage (Some ''Connected to streaming voice chat'')
                (updateConnectionStatus ''Connected - Ready to chat!'' True (ui vc))\<rparr>"

definition handleWebSocketError :: "voice_call \<Rightarrow> voice_call" where
  "handleWebSocketError vc =
     vc\<lparr>ui := addErrorMessage (Some ''Connection error occurred'')
                (updateConnectionStatus ''Connection error'' False (ui vc))\<rparr>"




definition sendTranscription :: "string \<Rightarrow> voice_call \<Rightarrow> voice_call" where
  "sendTranscription txt vc =
     (if \<not> isConnected_vc vc \<or> trim txt = [] then
        vc_log Log ''Cannot send transcription:'' vc
      else
        (let vc1 = vc_log Log ''Sending transcription:'' vc;
             r = sendUserSpeech (trim txt) (websocket vc1);
             vc2 = vc1\<lparr>websocket := fst r\<rparr>
         in if snd r then
              vc2\<lparr>ui := updateCallStatus (robot_face @ '' Waiting for AI response...'')
                           (addUserMessage (Some (trim txt)) (ui vc2))\<rparr>
            else
              (let vc3 = vc_log Err ''Error sending transcription:'' vc2
               in vc3\<lparr>ui := addErrorMessage
                     (Some ''Failed to send message: Failed to send message via WebSocket'')
                     (ui vc3)\<rparr>)))"

definition handleSpeechResult :: "string \<Rightarrow> voice_call \<Rightarrow> voice_call" where
  "handleSpeechResult txt vc = sendTranscription txt (vc\<lparr>ui := removeLiveTranscription (ui vc)\<rparr>)"

definition handleInterimSpeechResult :: "string \<Rightarrow> voice_call \<Rightarrow> voice_call" where
  "handleInterimSpeechResult txt vc =
     vc\<lparr>ui := updateCallStatus (microphone @ '' Speaking: '' @ dquote @ txt @ dquote)
                (showLiveTranscription txt (ui vc))\<rparr>"

text \<open>
  The constructor binds \<^verbatim>\<open>onResult\<close> to \<^verbatim>\<open>handleSpeechResult\<close> and
  \<^verbatim>\<open>onInterimResult\<close> to \<^verbatim>\<open>handleInterimSpeechResult\<close>; a \<^verbatim>\<open>result\<close> event of the
  recognition service runs the callbacks the recognition manager makes for it.
\<close>

fun speech_callback_step :: "voice_call \<Rightarrow> speech_callback \<Rightarrow> voice_call" where
  "speech_callback_step vc (OnInterimResult t) = handleInterimSpeechResult t vc"
| "speech_callback_step vc (OnResult t) = handleSpeechResult t vc"

definition recognition_result :: "voice_call \<Rightarrow> recognition_event \<Rightarrow> voice_call" where
  "recognition_result vc ev = foldl speech_callback_step vc (onresult ev)"

text \<open>The frames sent so far, socket by socket.\<close>

definition outbound :: "voice_call \<Rightarrow> frame list list" where
  "outbound vc = map sent (sockets (websocket vc))"

text \<open>A recognition event that reports one result, interim or final.\<close>

definition interim :: "string \<Rightarrow> recognition_event" where
  "interim t = \<lparr>resultIndex = 0, results = [\<lparr>transcript = t, isFinal = False\<rparr>]\<rparr>"

definition final :: "string \<Rightarrow> recognition_event" where
  "final t = \<lparr>resultIndex = 0, results = [\<lparr>transcript = t, isFinal = True\<rparr>]\<rparr>"

text \<open>
  A call in progress on a fresh page: the socket has opened, \<^verbatim>\<open>handleWebSocketOpen\<close> has
  run and the call has been started.
\<close>

definition call_in_progress :: voice_call where
  "call_in_progress =
     (handleWebSocketOpen
        \<lparr>console_vc = [], ui = new_UIManager, audio_vc = new_AudioManager,
         websocket = wm_run [WmConnect, WmNet (SocketOpen 0)] new_WebSocketManager,
         isOnCall = False, isConnected_vc = False\<rparr>)
     \<lparr>isOnCall := True\<rparr>"

section \<open>Properties\<close>

lemma atob_ok_samples: "atob_ok ''QUJD''" "atob_ok ''REVG''" "atob_ok ''QQ==''" "\<not> atob_ok ''%%%''"
  by (simp_all add: atob_ok_def strip_padding_def base64_char_def ascii_whitespace_def)

text \<open>
  C2 (at most one fragment playing). AudioPlayer breaks it: a second chunk that arrives
  while the first is still playing is started at once, because \<^verbatim>\<open>playNextChunk\<close> has
  already shifted the first chunk out of the queue and the length test in
  \<^verbatim>\<open>playAudioChunk\<close> sees a queue of length one again. After two chunks and no
  \<^verbatim>\<open>ended\<close> event, both elements are playing.
\<close>

theorem C2_player_two_chunks_overlap:
  "playing (player_run [InitializeStreamingAudio, PlayAudioChunk ''QUJD'', PlayAudioChunk ''REVG'']
      new_AudioPlayer) = [0, 1]"
  by (simp add: player_run_def new_AudioPlayer_def initializeStreamingAudio_def playAudioChunk_def
      playNextChunk_def el_play_def set_playing_def new_Audio_def playing_def is_playing_def
      atob_ok_samples Let_def upt_rec nth_append)

subsection \<open>At most one element plays in AudioManager\<close>


lemma set_playing_list: "set (playing b) = {k. is_playing (elements b) k}"
  by (auto simp add: playing_def is_playing_def)

lemma only_current_iff:
  "only_current m = (\<forall>k. is_playing (elements m) k \<longrightarrow> currentAudio m = Some k)"
  by (auto simp add: only_current_def list_all_iff set_playing_list)

lemma is_playing_lt: "is_playing els k \<Longrightarrow> k < length els"
  by (simp add: is_playing_def)

lemma only_current_unique:
  "only_current m \<Longrightarrow> is_playing (elements m) h \<Longrightarrow> is_playing (elements m) k \<Longrightarrow> k = h"
  by (metis only_current_iff option.inject)

lemma is_playing_set_playing:
  "is_playing (set_playing h b els) k = (if k = h \<and> h < length els then b else is_playing els k)"
  by (auto simp add: is_playing_def set_playing_def)

lemma silenced:
  assumes "only_current m" "is_playing (elements m) h"
  shows "\<not> is_playing (set_playing h False (elements m)) k"
proof (cases "k = h")
  case True
  then show ?thesis
    using is_playing_lt[OF assms(2)] by (simp add: is_playing_set_playing)
next
  case False
  then have "\<not> is_playing (elements m) k"
    using only_current_unique[OF assms] by blast
  then show ?thesis using False by (simp add: is_playing_set_playing)
qed

lemma is_playing_new: "is_playing (els @ [new_Audio d]) k = is_playing els k"
  by (auto simp add: is_playing_def new_Audio_def nth_append)

lemma is_playing_set_el_volume: "is_playing (set_el_volume h v els) k = is_playing els k"
  by (auto simp add: is_playing_def set_el_volume_def nth_list_update)

lemma stopCurrentAudio_silent:
  assumes "only_current m"
  shows "\<not> is_playing (elements (stopCurrentAudio m)) k"
  using assms
  by (cases "currentAudio m")
     (auto simp add: only_current_iff stopCurrentAudio_def Let_def is_playing_set_playing
       dest: is_playing_lt)

lemma stopCurrentAudio_only_current:
  assumes "only_current m"
  shows "only_current (stopCurrentAudio m)"
  using stopCurrentAudio_silent[OF assms] by (simp add: only_current_iff)

lemma playAudio_only_current:
  assumes "only_current m"
  shows "only_current (fst (playAudio b mime m))"
proof -
  have s: "\<And>k. \<not> is_playing (elements (stopCurrentAudio m)) k"
    using stopCurrentAudio_silent[OF assms] by simp
  show ?thesis
  proof (cases "falsy b \<or> \<not> atob_ok (the b)")
    case True
    then show ?thesis
      using assms by (auto simp add: only_current_iff playAudio_def Let_def console_log_def)
  next
    case False
    then show ?thesis
      using s
      by (simp add: only_current_iff playAudio_def Let_def console_log_def el_play_def
          is_playing_set_playing is_playing_new is_playing_set_el_volume)
  qed
qed

lemma playNextInQueue_only_current:
  assumes "only_current m"
  shows "only_current (playNextInQueue m)"
proof (cases "length (audioQueue_am m) = 0 \<or> isPlaying m")
  case True
  then show ?thesis using assms by (auto simp add: playNextInQueue_def)
next
  case False
  have "only_current (m\<lparr>audioQueue_am := tl (audioQueue_am m)\<rparr>)"
    using assms by (simp add: only_current_iff)
  then show ?thesis
    using False playAudio_only_current by (simp add: playNextInQueue_def Let_def)
qed

lemma am_step_only_current:
  assumes "only_current m"
  shows "only_current (am_step m e)"
proof (cases e)
  case (QueueAudio b mime)
  have "only_current (m\<lparr>audioQueue_am := audioQueue_am m @ [\<lparr>audioB64 = b, mimeType = mime\<rparr>]\<rparr>)"
    using assms by (simp add: only_current_iff)
  then show ?thesis
    using QueueAudio playNextInQueue_only_current by (simp add: queueAudio_def Let_def)
next
  case (PlayAudio b mime)
  then show ?thesis using playAudio_only_current[OF assms] by simp
next
  case StopCurrentAudio
  then show ?thesis using stopCurrentAudio_only_current[OF assms] by simp
next
  case ClearQueue
  then show ?thesis using assms by (simp add: only_current_iff clearQueue_def)
next
  case StopAll
  then show ?thesis
    using stopCurrentAudio_only_current[OF assms]
    by (simp add: only_current_iff stopAll_def clearQueue_def)
next
  case (SetVolume v)
  then show ?thesis
    using assms
    by (auto simp add: only_current_iff setVolume_def Let_def is_playing_set_el_volume
        split: option.splits)
next
  case (AmEnded h)
  show ?thesis
  proof (cases "is_playing (elements m) h")
    case True
    have "only_current (console_log Log ''Audio playback completed''
            ((revokeObjectURL h (m\<lparr>elements := set_playing h False (elements m)\<rparr>))
               \<lparr>currentAudio := None, isPlaying := False\<rparr>))"
      using silenced[OF assms True]
      by (simp add: only_current_iff console_log_def revokeObjectURL_def)
    then show ?thesis
      using AmEnded True playNextInQueue_only_current
      by (simp add: am_element_event_def am_onended_def Let_def)
  next
    case False
    then show ?thesis using AmEnded assms by (simp add: am_element_event_def)
  qed
next
  case (AmError h)
  show ?thesis
  proof (cases "is_playing (elements m) h")
    case True
    then show ?thesis
      using AmError silenced[OF assms True]
      by (simp add: only_current_iff am_element_event_def am_onerror_def Let_def
          console_log_def revokeObjectURL_def)
  next
    case False
    then show ?thesis using AmError assms by (simp add: am_element_event_def)
  qed
next
  case (AmPlaying h)
  then show ?thesis using assms by (simp add: only_current_iff el_begin_def)
next
  case (PlayResolved h)
  then show ?thesis
    using assms by (auto simp add: only_current_iff playAudio_resolved_def console_log_def)
next
  case (PlayRejected h)
  then show ?thesis
    using assms
    by (auto simp add: only_current_iff playAudio_rejected_def console_log_def is_playing_set_playing)
qed

lemma am_run_only_current: "only_current m \<Longrightarrow> only_current (am_run es m)"
  by (induction es arbitrary: m) (simp_all add: am_run_def am_step_only_current)

text \<open>
  AudioManager, the other playback path, keeps the invariant in every run of its events:
  \<^verbatim>\<open>playAudio\<close> pauses the current element before it starts another.
\<close>

lemma manager_at_most_one_playing: "length (playing (am_run es new_AudioManager)) \<le> 1"
proof -
  let ?m = "am_run es new_AudioManager"
  have "only_current new_AudioManager"
    by (simp add: only_current_def playing_def new_AudioManager_def)
  then have c: "only_current ?m" by (rule am_run_only_current)
  have d: "distinct (playing ?m)" by (simp add: playing_def)
  show ?thesis
  proof (cases "playing ?m")
    case Nil
    then show ?thesis by simp
  next
    case (Cons x xs)
    have "list_all (\<lambda>k. k = x) (x # xs)"
      using c Cons by (auto simp add: only_current_def list_all_iff)
    then have "xs = []" using d Cons by (cases xs) auto
    then show ?thesis using Cons by simp
  qed
qed

subsection \<open>Playback order\<close>


lemma playNextChunk_empty: "audioQueue p = [] \<Longrightarrow> playNextChunk p = p"
  by (simp add: playNextChunk_def)

lemma playAudioChunk_streaming:
  assumes "streaming p"
  shows "\<exists>p'. player_step p (PlayAudioChunk b) = p' \<and> streaming p' \<and>
           map snd (started p') = map snd (started p) @ filter atob_ok [b]"
  using assms
  by (simp add: streaming_def playAudioChunk_def playNextChunk_def el_play_def Let_def
      new_Audio_def nth_append)

lemma element_event_streaming:
  assumes "streaming p"
  shows "streaming (element_event chunk_onended h p) \<and> started (element_event chunk_onended h p) = started p"
    and "streaming (element_event chunk_onerror h p) \<and> started (element_event chunk_onerror h p) = started p"
  using assms
  by (auto simp add: streaming_def element_event_def chunk_onended_def chunk_onerror_def
      playNextChunk_def revokeObjectURL_def console_log_def Let_def split: option.splits)

lemma timer_streaming:
  assumes "streaming p"
  shows "streaming (player_step p (TimerFires k)) \<and> started (player_step p (TimerFires k)) = started p"
  using assms
  by (auto simp add: streaming_def playNextChunk_def cleanup_callback_def Let_def split: player_timer.splits)

lemma player_step_streaming:
  assumes "streaming p" "stream_event e"
  shows "streaming (player_step p e) \<and>
         map snd (started (player_step p e)) = map snd (started p) @ filter atob_ok (chunks [e])"
proof (cases e)
  case (PlayAudioChunk b)
  then show ?thesis using playAudioChunk_streaming[OF assms(1), of b] by simp
next
  case (AudioEnded h)
  then show ?thesis using element_event_streaming(1)[OF assms(1), of h] by simp
next
  case (AudioError h)
  then show ?thesis using element_event_streaming(2)[OF assms(1), of h] by simp
next
  case (AudioPlaying h)
  then show ?thesis using assms(1) by (simp add: streaming_def el_begin_def)
next
  case (TimerFires k)
  then show ?thesis using timer_streaming[OF assms(1), of k] by simp
qed (use assms(2) in simp_all)

lemma chunks_append: "chunks (es @ fs) = chunks es @ chunks fs"
  by (induction es rule: chunks.induct) simp_all

lemma player_run_streaming:
  assumes "streaming p" "list_all stream_event es"
  shows "streaming (player_run es p) \<and>
         map snd (started (player_run es p)) = map snd (started p) @ filter atob_ok (chunks es)"
  using assms
proof (induction es arbitrary: p)
  case Nil
  then show ?case by (simp add: player_run_def)
next
  case (Cons e es)
  have step: "streaming (player_step p e)"
    "map snd (started (player_step p e)) = map snd (started p) @ filter atob_ok (chunks [e])"
    using player_step_streaming[of p e] Cons.prems by simp_all
  have "chunks (e # es) = chunks [e] @ chunks es"
    using chunks_append[of "[e]" es] by simp
  then show ?case
    using Cons.IH[OF step(1)] Cons.prems(2) step(2) by (simp add: player_run_def)
qed



lemma playable_append: "playable (xs @ ys) = playable xs @ playable ys"
  by (simp add: playable_def)

lemma playable_Cons:
  "playable (b # bs) = (if \<not> falsy b \<and> atob_ok (the b) then the b # playable bs else playable bs)"
  by (simp add: playable_def)

lemma queued_append: "queued (es @ fs) = queued es @ queued fs"
  by (induction es rule: queued.induct) simp_all

lemma playAudio_started:
  assumes "volume_in_range (volume m)"
  shows "volume (fst (playAudio b mime m)) = volume m"
    and "audioQueue_am (fst (playAudio b mime m)) = audioQueue_am m"
    and "map snd (started (fst (playAudio b mime m))) = map snd (started m) @ playable [b]"
  using assms
  by (auto simp add: playAudio_def playable_Cons console_log_def stopCurrentAudio_def el_play_def
      new_Audio_def set_el_volume_def Let_def nth_append playable_def split: option.splits)

lemma playNextInQueue_started:
  assumes "volume_in_range (volume m)"
  shows "volume (playNextInQueue m) = volume m"
    and "map snd (started (playNextInQueue m)) @ pending (playNextInQueue m)
           = map snd (started m) @ pending m"
proof -
  show "volume (playNextInQueue m) = volume m"
    using assms by (simp add: playNextInQueue_def Let_def playAudio_started(1))
  show "map snd (started (playNextInQueue m)) @ pending (playNextInQueue m)
           = map snd (started m) @ pending m"
  proof (cases "length (audioQueue_am m) = 0 \<or> isPlaying m")
    case True
    then show ?thesis by (auto simp add: playNextInQueue_def)
  next
    case False
    then obtain n ns where q: "audioQueue_am m = n # ns" by (cases "audioQueue_am m") auto
    let ?m1 = "m\<lparr>audioQueue_am := ns\<rparr>"
    have v: "volume_in_range (volume ?m1)" using assms by simp
    have eq: "playNextInQueue m = fst (playAudio (audioB64 n) (mimeType n) ?m1)"
      using False q by (simp add: playNextInQueue_def Let_def)
    show ?thesis
      unfolding eq pending_def
      using playAudio_started(2,3)[OF v, of "audioB64 n" "mimeType n"] q
      by (simp add: playable_append[of "[audioB64 n]" "map audioB64 ns", simplified])
  qed
qed

lemma am_step_started:
  assumes "volume_in_range (volume m)" "queue_event e"
  shows "volume_in_range (volume (am_step m e))"
    and "map snd (started (am_step m e)) @ pending (am_step m e)
           = map snd (started m) @ pending m @ playable (queued [e])"
proof -
  have "volume_in_range (volume (am_step m e)) \<and>
        map snd (started (am_step m e)) @ pending (am_step m e)
           = map snd (started m) @ pending m @ playable (queued [e])"
  proof (cases e)
    case (QueueAudio b mime)
    let ?m1 = "m\<lparr>audioQueue_am := audioQueue_am m @ [\<lparr>audioB64 = b, mimeType = mime\<rparr>]\<rparr>"
    have v: "volume_in_range (volume ?m1)" using assms(1) by simp
    have p1: "pending ?m1 = pending m @ playable [b]"
      by (simp add: pending_def playable_append)
    show ?thesis
      using playNextInQueue_started[OF v] p1 assms(1) QueueAudio
      by (simp add: queueAudio_def Let_def)
  next
    case (AmEnded h)
    let ?m3 = "console_log Log ''Audio playback completed''
                 ((revokeObjectURL h (m\<lparr>elements := set_playing h False (elements m)\<rparr>))
                    \<lparr>currentAudio := None, isPlaying := False\<rparr>)"
    have v: "volume_in_range (volume ?m3)"
      using assms(1) by (simp add: console_log_def revokeObjectURL_def)
    have s: "started ?m3 = started m" "pending ?m3 = pending m" "volume ?m3 = volume m"
      by (simp_all add: console_log_def revokeObjectURL_def pending_def)
    show ?thesis
      using playNextInQueue_started[OF v] s assms(1) AmEnded
      by (simp add: am_element_event_def am_onended_def Let_def playable_def)
  next
    case (AmError h)
    then show ?thesis using assms(1)
      by (simp add: am_element_event_def am_onerror_def Let_def playable_def pending_def
          console_log_def revokeObjectURL_def)
  next
    case (AmPlaying h)
    then show ?thesis using assms(1)
      by (simp add: el_begin_def playable_def pending_def)
  next
    case (PlayResolved h)
    then show ?thesis using assms(1)
      by (simp add: playAudio_resolved_def playable_def pending_def console_log_def)
  next
    case (PlayRejected h)
    then show ?thesis using assms(1)
      by (simp add: playAudio_rejected_def playable_def pending_def console_log_def)
  qed (use assms(2) in simp_all)
  then show "volume_in_range (volume (am_step m e))"
    and "map snd (started (am_step m e)) @ pending (am_step m e)
           = map snd (started m) @ pending m @ playable (queued [e])"
    by simp_all
qed

lemma am_run_started:
  assumes "volume_in_range (volume m)" "list_all queue_event es"
  shows "map snd (started (am_run es m)) @ pending (am_run es m)
           = map snd (started m) @ pending m @ playable (queued es)"
  using assms
proof (induction es arbitrary: m)
  case Nil
  then show ?case by (simp add: am_run_def playable_def)
next
  case (Cons e es)
  have e: "queue_event e" and es: "list_all queue_event es" using Cons.prems(2) by simp_all
  have q: "queued (e # es) = queued [e] @ queued es"
    using queued_append[of "[e]" es] by simp
  show ?case
    using Cons.IH[OF am_step_started(1)[OF Cons.prems(1) e] es]
      am_step_started(2)[OF Cons.prems(1) e] q
    by (simp add: am_run_def playable_append)
qed

text \<open>
  The calls of \<^verbatim>\<open>play()\<close> are made in the order of the enqueue calls, whatever the
  interleaving with \<^verbatim>\<open>ended\<close> and \<^verbatim>\<open>error\<close> events, timer expiries and settled
  promises: in AudioPlayer, streaming, \<^verbatim>\<open>play()\<close> has been called on every chunk
  \<^verbatim>\<open>atob\<close> accepts; in AudioManager on the first of the playable fragments, the others
  still waiting in the queue. This is the order of the calls, not yet the order in which
  the elements begin to play.
\<close>

lemma player_play_calls_in_order:
  assumes "list_all stream_event es"
  shows "map snd (started (player_run es (initializeStreamingAudio new_AudioPlayer)))
           = filter atob_ok (chunks es)"
proof -
  have p0: "streaming (initializeStreamingAudio new_AudioPlayer)"
    by (simp add: streaming_def initializeStreamingAudio_def new_AudioPlayer_def)
  have s0: "started (initializeStreamingAudio new_AudioPlayer) = []"
    by (simp add: initializeStreamingAudio_def new_AudioPlayer_def)
  show ?thesis using player_run_streaming[OF p0 assms] s0 by simp
qed

lemma manager_play_calls_in_order:
  assumes "list_all queue_event fs"
  shows "map snd (started (am_run fs new_AudioManager)) @ pending (am_run fs new_AudioManager)
           = playable (queued fs)"
proof -
  have m0: "volume_in_range (volume new_AudioManager)"
    "started new_AudioManager = []" "pending new_AudioManager = []"
    by (simp_all add: new_AudioManager_def volume_in_range_def pending_def playable_def)
  show ?thesis using am_run_started[OF m0(1) assms] m0(2,3) by simp
qed

subsection \<open>The order in which elements begin to play\<close>

lemma stopCurrentAudio_volume: "volume (stopCurrentAudio m) = volume m"
  by (simp add: stopCurrentAudio_def Let_def split: option.splits)

lemma quiet_iff:
  "quiet b b' =
     (started b' = started b \<and> begun b' = begun b \<and> length (elements b) \<le> length (elements b')
      \<and> (\<forall>k<length (elements b). src (elements b' ! k) = src (elements b ! k))
      \<and> (\<forall>k. is_playing (elements b') k \<longrightarrow> is_playing (elements b) k))"
  by (auto simp add: quiet_def list_all_iff set_playing_list)

lemma starts_one_iff:
  "starts_one h b b' =
     (is_playing (elements b') h
      \<and> started b' = started b @ [(h, src (elements b' ! h))] \<and> begun b' = begun b
      \<and> length (elements b) \<le> h
      \<and> (\<forall>k<length (elements b). src (elements b' ! k) = src (elements b ! k)))"
  by (auto simp add: starts_one_def list_all_iff)

lemma playing_last_iff:
  "playing_last b =
     (\<forall>h. is_playing (elements b) h \<longrightarrow>
        started b \<noteq> [] \<and> last (started b) = (h, src (elements b ! h)))"
  by (auto simp add: playing_last_def list_all_iff set_playing_list)

lemma handles_fresh_iff:
  "handles_fresh b =
     (distinct (map fst (started b)) \<and> (\<forall>x\<in>set (started b). fst x < length (elements b)))"
  by (auto simp add: handles_fresh_def list_all_iff)

lemma quiet_refl: "quiet b b"
  by (simp add: quiet_iff)

lemma quiet_trans: "quiet a b \<Longrightarrow> quiet b c \<Longrightarrow> quiet a c"
  by (auto simp add: quiet_iff)

lemma quiet_starts: "quiet a b \<Longrightarrow> starts_one h b c \<Longrightarrow> starts_one h a c"
  by (auto simp add: quiet_iff starts_one_iff)

lemma set_playing_src:
  "length (set_playing h b els) = length els"
  "src (set_playing h b els ! k) = src (els ! k)"
  by (auto simp add: set_playing_def nth_list_update)

lemma set_el_volume_src:
  "length (set_el_volume h v els) = length els"
  "src (set_el_volume h v els ! k) = src (els ! k)"
  by (auto simp add: set_el_volume_def nth_list_update)

lemma stopCurrentAudio_quiet: "quiet m (stopCurrentAudio m)"
  by (auto simp add: quiet_iff stopCurrentAudio_def Let_def set_playing_src is_playing_set_playing
      split: option.splits if_splits)

lemma playAudio_effect:
  "quiet m (fst (playAudio b mime m)) \<or> starts_one (length (elements m)) m (fst (playAudio b mime m))"
proof -
  let ?m1 = "stopCurrentAudio m"
  have q: "quiet m ?m1" by (rule stopCurrentAudio_quiet)
  have l: "length (elements ?m1) = length (elements m)"
    by (auto simp add: stopCurrentAudio_def Let_def set_playing_src split: option.splits)
  show ?thesis
  proof (cases "falsy b \<or> \<not> atob_ok (the b)")
    case True
    then show ?thesis
      by (auto simp add: playAudio_def Let_def console_log_def quiet_iff)
  next
    case False
    show ?thesis
    proof (cases "volume_in_range (volume m)")
      case True
      have "starts_one (length (elements ?m1)) ?m1 (fst (playAudio b mime m))"
        using False True
        by (simp add: playAudio_def Let_def console_log_def starts_one_iff el_play_def
            set_playing_src set_el_volume_src is_playing_set_playing nth_append
            stopCurrentAudio_volume)
      then show ?thesis using quiet_starts[OF q] l by simp
    next
      case nv: False
      have "quiet ?m1 (fst (playAudio b mime m))"
        using False nv
        by (simp add: playAudio_def Let_def console_log_def quiet_iff nth_append
            is_playing_new stopCurrentAudio_volume)
      then show ?thesis using quiet_trans[OF q] by simp
    qed
  qed
qed


lemma playNextInQueue_effect:
  "quiet m (playNextInQueue m) \<or> starts_one (length (elements m)) m (playNextInQueue m)"
proof (cases "length (audioQueue_am m) = 0 \<or> isPlaying m")
  case True
  then show ?thesis by (auto simp add: playNextInQueue_def quiet_refl)
next
  case False
  let ?m1 = "m\<lparr>audioQueue_am := tl (audioQueue_am m)\<rparr>"
  have q: "quiet m ?m1" by (simp add: quiet_iff)
  have e: "playNextInQueue m = fst (playAudio (audioB64 (hd (audioQueue_am m))) (mimeType (hd (audioQueue_am m))) ?m1)"
    using False by (simp add: playNextInQueue_def Let_def)
  show ?thesis
    unfolding e
    using playAudio_effect[of ?m1 "audioB64 (hd (audioQueue_am m))" "mimeType (hd (audioQueue_am m))"]
      quiet_trans[OF q] quiet_starts[OF q]
    by auto
qed

lemma am_step_effect:
  assumes "\<forall>h. e \<noteq> AmPlaying h"
  shows "quiet m (am_step m e) \<or> starts_one (length (elements m)) m (am_step m e)"
proof (cases e)
  case (QueueAudio b mime)
  let ?m1 = "m\<lparr>audioQueue_am := audioQueue_am m @ [\<lparr>audioB64 = b, mimeType = mime\<rparr>]\<rparr>"
  have q: "quiet m ?m1" by (simp add: quiet_iff)
  show ?thesis
    using QueueAudio playNextInQueue_effect[of ?m1] quiet_trans[OF q] quiet_starts[OF q] q
    by (auto simp add: queueAudio_def Let_def)
next
  case (PlayAudio b mime)
  then show ?thesis using playAudio_effect[of m b mime] by simp
next
  case StopCurrentAudio
  then show ?thesis using stopCurrentAudio_quiet[of m] by simp
next
  case ClearQueue
  then show ?thesis by (simp add: clearQueue_def quiet_iff)
next
  case StopAll
  have "quiet (stopCurrentAudio m) (clearQueue (stopCurrentAudio m))"
    by (simp add: clearQueue_def quiet_iff)
  then show ?thesis
    using StopAll quiet_trans[OF stopCurrentAudio_quiet[of m]] by (simp add: stopAll_def)
next
  case (SetVolume v)
  then show ?thesis
    by (auto simp add: setVolume_def Let_def quiet_iff set_el_volume_src is_playing_set_el_volume
        split: option.splits)
next
  case (AmEnded h)
  show ?thesis
  proof (cases "is_playing (elements m) h")
    case True
    let ?m3 = "console_log Log ''Audio playback completed''
                 ((revokeObjectURL h (m\<lparr>elements := set_playing h False (elements m)\<rparr>))
                    \<lparr>currentAudio := None, isPlaying := False\<rparr>)"
    have q: "quiet m ?m3"
      by (simp add: quiet_iff console_log_def revokeObjectURL_def set_playing_src is_playing_set_playing)
    have l: "length (elements ?m3) = length (elements m)"
      by (simp add: console_log_def revokeObjectURL_def set_playing_src)
    show ?thesis
      using AmEnded True playNextInQueue_effect[of ?m3] quiet_trans[OF q] quiet_starts[OF q] l
      by (auto simp add: am_element_event_def am_onended_def Let_def)
  next
    case False
    then show ?thesis using AmEnded by (simp add: am_element_event_def quiet_refl)
  qed
next
  case (AmError h)
  then show ?thesis
    by (simp add: am_element_event_def am_onerror_def Let_def quiet_iff console_log_def
        revokeObjectURL_def set_playing_src is_playing_set_playing)
next
  case (AmPlaying h)
  then show ?thesis using assms by simp
next
  case (PlayResolved h)
  then show ?thesis by (simp add: playAudio_resolved_def console_log_def quiet_iff)
next
  case (PlayRejected h)
  then show ?thesis
    by (simp add: playAudio_rejected_def console_log_def quiet_iff set_playing_src is_playing_set_playing)
qed

lemma begin_order_quiet:
  assumes "begin_order b" "quiet b b'"
  shows "begin_order b'"
proof -
  have q: "started b' = started b" "begun b' = begun b" "length (elements b) \<le> length (elements b')"
    "\<And>k. k < length (elements b) \<Longrightarrow> src (elements b' ! k) = src (elements b ! k)"
    "\<And>k. is_playing (elements b') k \<Longrightarrow> is_playing (elements b) k"
    using assms(2) by (simp_all add: quiet_iff)
  have "handles_fresh b'"
    using assms(1) q(1,3) by (fastforce simp add: begin_order_def handles_fresh_iff)
  moreover have "playing_last b'"
    using assms(1) q(1,4,5) is_playing_lt
    by (fastforce simp add: begin_order_def playing_last_iff)
  moreover have "begins_follow_starts b'"
    using assms(1) q(1,2) by (simp add: begin_order_def begins_follow_starts_def)
  ultimately show ?thesis by (simp add: begin_order_def)
qed

lemma begun_started:
  assumes "begins_follow_starts b" "x \<in> set (begun b)"
  shows "x \<in> set (started b)"
proof -
  have "x \<in> set (filter (\<lambda>x. x \<in> set (begun b)) (started b))"
    using assms by (simp add: begins_follow_starts_def)
  then show ?thesis by simp
qed

lemma begin_order_starts:
  assumes "begin_order b" "starts_one h b b'"
    and u: "\<And>k. is_playing (elements b') k \<Longrightarrow> k = h"
  shows "begin_order b'"
proof -
  let ?x = "(h, src (elements b' ! h))"
  have s: "is_playing (elements b') h" "started b' = started b @ [?x]" "begun b' = begun b"
    "length (elements b) \<le> h"
    using assms(2) by (simp_all add: starts_one_iff)
  have hf: "distinct (map fst (started b))" "\<And>x. x \<in> set (started b) \<Longrightarrow> fst x < length (elements b)"
    using assms(1) by (simp_all add: begin_order_def handles_fresh_iff)
  have bf: "begins_follow_starts b" using assms(1) by (simp add: begin_order_def)
  have fresh: "h \<notin> fst ` set (started b)"
    using hf(2) s(4) by fastforce
  have "handles_fresh b'"
    using hf fresh s(1,2,4) is_playing_lt[OF s(1)]
    by (fastforce simp add: handles_fresh_iff)
  moreover have "playing_last b'"
    using u s(2) by (auto simp add: playing_last_iff)
  moreover have "begins_follow_starts b'"
  proof -
    have "?x \<notin> set (begun b)"
      using begun_started[OF bf, of ?x] fresh by force
    then show ?thesis
      using bf s(2,3) by (simp add: begins_follow_starts_def)
  qed
  ultimately show ?thesis by (simp add: begin_order_def)
qed

lemma begin_order_el_begin:
  assumes "begin_order b"
  shows "begin_order (el_begin h b)"
proof (cases "is_playing (elements b) h \<and> h \<notin> set (map fst (begun b))")
  case False
  then show ?thesis using assms by (auto simp add: el_begin_def)
next
  case True
  let ?x = "(h, src (elements b ! h))"
  let ?b' = "b\<lparr>begun := begun b @ [?x]\<rparr>"
  have e: "el_begin h b = ?b'" using True by (simp add: el_begin_def)
  have "playing_last b" using assms by (simp add: begin_order_def)
  then have pl: "started b \<noteq> []" "last (started b) = ?x"
    using True by (auto simp add: playing_last_iff)
  then obtain ss where ss: "started b = ss @ [?x]"
    by (metis append_butlast_last_id)
  have d: "distinct (map fst (started b))"
    using assms by (simp add: begin_order_def handles_fresh_iff)
  have n1: "?x \<notin> set ss" using d ss by force
  have n2: "?x \<notin> set (begun b)" using True by force
  have bf: "begun b = filter (\<lambda>x. x \<in> set (begun b)) (started b)"
    using assms by (simp add: begin_order_def begins_follow_starts_def)
  have f1: "filter (\<lambda>x. x \<in> set (begun b)) ss = begun b"
    using bf ss n2 by simp
  have f2: "filter (\<lambda>y. y = ?x \<or> y \<in> set (begun b)) ss = filter (\<lambda>x. x \<in> set (begun b)) ss"
    using n1 by (intro filter_cong) auto
  have "begins_follow_starts ?b'"
    using f1 f2 ss by (simp add: begins_follow_starts_def)
  moreover have "handles_fresh ?b'" "playing_last ?b'"
    using assms by (simp_all add: begin_order_def handles_fresh_iff playing_last_iff)
  ultimately show ?thesis unfolding e by (simp add: begin_order_def)
qed

lemma am_step_begin_order:
  assumes "only_current m" "begin_order m"
  shows "begin_order (am_step m e)"
proof (cases "\<exists>h. e = AmPlaying h")
  case True
  then show ?thesis using begin_order_el_begin[OF assms(2)] by auto
next
  case False
  then have ne: "\<forall>h. e \<noteq> AmPlaying h" by simp
  have oc: "only_current (am_step m e)" by (rule am_step_only_current[OF assms(1)])
  show ?thesis
    using am_step_effect[OF ne, of m]
  proof
    assume "quiet m (am_step m e)"
    then show ?thesis by (rule begin_order_quiet[OF assms(2)])
  next
    assume s: "starts_one (length (elements m)) m (am_step m e)"
    then have p: "is_playing (elements (am_step m e)) (length (elements m))"
      by (simp add: starts_one_iff)
    show ?thesis
      using begin_order_starts[OF assms(2) s] only_current_unique[OF oc p] by blast
  qed
qed

lemma am_run_begin_order:
  "only_current m \<Longrightarrow> begin_order m \<Longrightarrow> begin_order (am_run es m)"
proof (induction es arbitrary: m)
  case Nil
  then show ?case by (simp add: am_run_def)
next
  case (Cons e es)
  show ?case
    using Cons.IH[OF am_step_only_current[OF Cons.prems(1)] am_step_begin_order[OF Cons.prems]]
    by (simp add: am_run_def)
qed

text \<open>
  In AudioManager the elements begin to play in the order of the \<^verbatim>\<open>play()\<close> calls, in
  every run of its events and whatever time each element takes to decode:
  \<^verbatim>\<open>play()\<close> is not called on the next fragment before the current element has ended
  or was stopped, so no two elements are decoding at once.
\<close>

lemma manager_begins_follow_starts:
  "begun (am_run es new_AudioManager)
     = filter (\<lambda>x. x \<in> set (begun (am_run es new_AudioManager))) (started (am_run es new_AudioManager))"
proof -
  have "only_current new_AudioManager"
    by (simp add: only_current_def playing_def new_AudioManager_def)
  moreover have "begin_order new_AudioManager"
    by (simp add: begin_order_def handles_fresh_def playing_last_def begins_follow_starts_def
        playing_def new_AudioManager_def)
  ultimately have "begin_order (am_run es new_AudioManager)" by (rule am_run_begin_order)
  then show ?thesis by (simp add: begin_order_def begins_follow_starts_def)
qed

lemma playing_nonempty: "is_playing (elements b) h \<Longrightarrow> playing b \<noteq> []"
  using set_playing_list[of b] by (metis empty_iff empty_set mem_Collect_eq)

lemma playAudio_plays:
  assumes "volume_in_range (volume m)" "\<not> falsy b" "atob_ok (the b)"
  shows "isPlaying (fst (playAudio b mime m))"
    and "playing (fst (playAudio b mime m)) \<noteq> []"
proof -
  show "isPlaying (fst (playAudio b mime m))"
    using assms by (simp add: playAudio_def Let_def stopCurrentAudio_volume el_play_def)
  have "is_playing (elements (fst (playAudio b mime m))) (length (elements (stopCurrentAudio m)))"
    using assms
    by (simp add: playAudio_def Let_def stopCurrentAudio_volume el_play_def is_playing_set_playing
        set_el_volume_src)
  then show "playing (fst (playAudio b mime m)) \<noteq> []" by (rule playing_nonempty)
qed

lemma playNextInQueue_draining:
  assumes "volume_in_range (volume m)"
    and "list_all (\<lambda>q. \<not> falsy (audioB64 q) \<and> atob_ok (the (audioB64 q))) (audioQueue_am m)"
    and "isPlaying m \<longrightarrow> playing m \<noteq> []"
  shows "draining (playNextInQueue m)"
proof (cases "length (audioQueue_am m) = 0 \<or> isPlaying m")
  case True
  then show ?thesis using assms by (auto simp add: playNextInQueue_def draining_def)
next
  case False
  then obtain n ns where q: "audioQueue_am m = n # ns" by (cases "audioQueue_am m") auto
  let ?m1 = "m\<lparr>audioQueue_am := ns\<rparr>"
  have eq: "playNextInQueue m = fst (playAudio (audioB64 n) (mimeType n) ?m1)"
    using False q by (simp add: playNextInQueue_def Let_def)
  have v: "volume_in_range (volume ?m1)" using assms(1) by simp
  have n: "\<not> falsy (audioB64 n)" "atob_ok (the (audioB64 n))" using assms(2) q by simp_all
  show ?thesis
    unfolding eq draining_def
    using playAudio_plays[OF v n, of "mimeType n"] playAudio_started(1,2)[OF v, of "audioB64 n" "mimeType n"]
      assms(1,2) q
    by simp
qed

lemma am_step_draining:
  assumes "draining m" "playback_event e"
  shows "draining (am_step m e)"
proof (cases e)
  case (QueueAudio b mime)
  let ?m1 = "m\<lparr>audioQueue_am := audioQueue_am m @ [\<lparr>audioB64 = b, mimeType = mime\<rparr>]\<rparr>"
  have b: "\<not> falsy b" "atob_ok (the b)" using assms(2) QueueAudio by simp_all
  have p: "playing ?m1 = playing m" by (simp add: playing_def)
  show ?thesis
  proof (cases "isPlaying m")
    case True
    then show ?thesis
      using QueueAudio assms(1) b p by (simp add: queueAudio_def Let_def draining_def)
  next
    case False
    have "draining (playNextInQueue ?m1)"
      using assms(1) b False by (intro playNextInQueue_draining) (simp_all add: draining_def)
    then show ?thesis using QueueAudio False by (simp add: queueAudio_def Let_def)
  qed
next
  case (AmEnded h)
  show ?thesis
  proof (cases "is_playing (elements m) h")
    case True
    let ?m3 = "console_log Log ''Audio playback completed''
                 ((revokeObjectURL h (m\<lparr>elements := set_playing h False (elements m)\<rparr>))
                    \<lparr>currentAudio := None, isPlaying := False\<rparr>)"
    have "draining (playNextInQueue ?m3)"
      using assms(1)
      by (intro playNextInQueue_draining)
         (simp_all add: draining_def console_log_def revokeObjectURL_def)
    then show ?thesis
      using AmEnded True by (simp add: am_element_event_def am_onended_def Let_def)
  next
    case False
    then show ?thesis using AmEnded assms(1) by (simp add: am_element_event_def)
  qed
next
  case (AmPlaying h)
  have "playing (el_begin h m) = playing m" by (simp add: el_begin_def playing_def)
  then show ?thesis using AmPlaying assms(1) by (simp add: draining_def el_begin_def)
next
  case (PlayResolved h)
  have "playing (am_step m (PlayResolved h)) = playing m"
    by (simp add: playing_def playAudio_resolved_def console_log_def)
  then show ?thesis
    using PlayResolved assms(1) by (simp add: draining_def playAudio_resolved_def console_log_def)
qed (use assms(2) in simp_all)

lemma am_run_draining:
  "draining m \<Longrightarrow> list_all playback_event es \<Longrightarrow> draining (am_run es m)"
  by (induction es arbitrary: m) (simp_all add: am_run_def am_step_draining)

lemma playback_queue_event: "playback_event e \<Longrightarrow> queue_event e"
  by (cases e) simp_all

text \<open>
  And in a run of AudioManager without failures no fragment is left behind: whenever
  no element is playing, \<^verbatim>\<open>play()\<close> has been called on every fragment enqueued so far,
  in enqueue order.
\<close>

lemma manager_queue_drains:
  assumes "list_all playback_event es" and "playing (am_run es new_AudioManager) = []"
  shows "map snd (started (am_run es new_AudioManager)) = playable (queued es)"
proof -
  let ?m = "am_run es new_AudioManager"
  have d0: "draining new_AudioManager"
    by (simp add: draining_def new_AudioManager_def volume_in_range_def)
  have "draining ?m" by (rule am_run_draining[OF d0 assms(1)])
  then have "audioQueue_am ?m = []"
    using assms(2) by (auto simp add: draining_def split: if_splits)
  then have p: "pending ?m = []" by (simp add: pending_def playable_def)
  have q: "list_all queue_event es"
    using assms(1) playback_queue_event by (auto simp add: list_all_iff)
  have m0: "volume_in_range (volume new_AudioManager)"
    "started new_AudioManager = []" "pending new_AudioManager = []"
    by (simp_all add: new_AudioManager_def volume_in_range_def pending_def playable_def)
  show ?thesis
    using am_run_started[OF m0(1) q] p m0(2,3) by simp
qed

text \<open>
  Two fragments enqueued at once in AudioManager: the second has no element until the
  first has ended, so it cannot begin first however fast it would decode.
\<close>

lemma manager_later_fragment_waits:
  "begun (am_run [QueueAudio (Some ''QUJD'') ''audio/mp3'', QueueAudio (Some ''REVG'') ''audio/mp3'',
        AmPlaying 1] new_AudioManager) = []"
  "map snd (begun (am_run [QueueAudio (Some ''QUJD'') ''audio/mp3'', QueueAudio (Some ''REVG'') ''audio/mp3'',
        AmPlaying 1, AmPlaying 0, AmEnded 0, AmPlaying 1] new_AudioManager)) = [''QUJD'', ''REVG'']"
  by (simp_all add: am_run_def new_AudioManager_def queueAudio_def playNextInQueue_def playAudio_def
      stopCurrentAudio_def el_play_def el_begin_def set_playing_def set_el_volume_def new_Audio_def
      is_playing_def falsy_def volume_in_range_def
      am_element_event_def am_onended_def
      console_log_def revokeObjectURL_def atob_ok_samples Let_def nth_append)

text \<open>
  C1 (fragments begin to play in enqueue order, however fast a later one decodes).
  AudioPlayer breaks it, by the defect of C2: \<^verbatim>\<open>play()\<close> is called on the second chunk
  while the first is still waiting for its data to be decoded, so both elements are
  decoding at once and the one that is ready first begins first. With the chunks QUJD
  and REVG enqueued in this order and the second element ready before the first,
  REVG begins to play before QUJD.
\<close>

theorem C1_player_later_chunk_begins_first:
  "chunks [InitializeStreamingAudio, PlayAudioChunk ''QUJD'', PlayAudioChunk ''REVG'',
           AudioPlaying 1, AudioPlaying 0] = [''QUJD'', ''REVG'']
   \<and> started (player_run [InitializeStreamingAudio, PlayAudioChunk ''QUJD'',
         PlayAudioChunk ''REVG''] new_AudioPlayer) = [(0, ''QUJD''), (1, ''REVG'')]
   \<and> begun (player_run [InitializeStreamingAudio, PlayAudioChunk ''QUJD'',
         PlayAudioChunk ''REVG''] new_AudioPlayer) = []
   \<and> begun (player_run [InitializeStreamingAudio, PlayAudioChunk ''QUJD'',
         PlayAudioChunk ''REVG'', AudioPlaying 1, AudioPlaying 0] new_AudioPlayer)
       = [(1, ''REVG''), (0, ''QUJD'')]"
  by (simp add: player_run_def new_AudioPlayer_def initializeStreamingAudio_def playAudioChunk_def
      playNextChunk_def el_play_def el_begin_def set_playing_def new_Audio_def is_playing_def
      atob_ok_samples Let_def nth_append)

subsection \<open>A failed fragment\<close>

text \<open>
  C5 (a failed fragment does not stall the queue). AudioManager breaks it: its
  \<^verbatim>\<open>onerror\<close> handler releases the fragment but, unlike \<^verbatim>\<open>onended\<close>, does not call
  \<^verbatim>\<open>playNextInQueue\<close>. With one fragment playing and a second one queued, an \<^verbatim>\<open>error\<close>
  event on the first leaves the second in the queue with nothing playing and nothing
  pending that would start it; had the first fragment ended instead, the second would
  have started.
\<close>

theorem C5_manager_error_stalls_queue:
  "map snd (started (am_run [QueueAudio (Some ''QUJD'') ''audio/mp3'', PlayResolved 0,
       QueueAudio (Some ''REVG'') ''audio/mp3'', AmError 0] new_AudioManager)) = [''QUJD'']
   \<and> pending (am_run [QueueAudio (Some ''QUJD'') ''audio/mp3'', PlayResolved 0,
       QueueAudio (Some ''REVG'') ''audio/mp3'', AmError 0] new_AudioManager) = [''REVG'']
   \<and> playing (am_run [QueueAudio (Some ''QUJD'') ''audio/mp3'', PlayResolved 0,
       QueueAudio (Some ''REVG'') ''audio/mp3'', AmError 0] new_AudioManager) = []
   \<and> awaiting (am_run [QueueAudio (Some ''QUJD'') ''audio/mp3'', PlayResolved 0,
       QueueAudio (Some ''REVG'') ''audio/mp3'', AmError 0] new_AudioManager) = []
   \<and> map snd (started (am_run [QueueAudio (Some ''QUJD'') ''audio/mp3'', PlayResolved 0,
       QueueAudio (Some ''REVG'') ''audio/mp3'', AmEnded 0] new_AudioManager)) = [''QUJD'', ''REVG'']"
  by (simp add: am_run_def new_AudioManager_def queueAudio_def playNextInQueue_def playAudio_def
      stopCurrentAudio_def el_play_def set_playing_def set_el_volume_def new_Audio_def
      playing_def is_playing_def pending_def playable_def falsy_def volume_in_range_def
      am_element_event_def am_onerror_def am_onended_def playAudio_resolved_def
      console_log_def revokeObjectURL_def atob_ok_samples Let_def upt_rec nth_append)

text \<open>
  AudioPlayer's \<^verbatim>\<open>onerror\<close> handler, by contrast, releases the failed chunk and starts
  the next one that is queued.
\<close>

lemma chunk_onerror_advances:
  assumes "audioQueue p = n # ns" "\<not> isMuted p" "audio n < length (elements p)"
  shows "started (chunk_onerror c p) = started p @ [(audio n, src (elements p ! audio n))]"
    and "audioQueue (chunk_onerror c p) = ns"
    and "revoked (chunk_onerror c p) = revoked p @ [url c]"
  using assms
  by (simp_all add: chunk_onerror_def playNextChunk_def el_play_def revokeObjectURL_def
      console_log_def Let_def)

subsection \<open>Volume\<close>

lemma clamp_in_range:
  "v \<noteq> NaN \<Longrightarrow> volume_in_range (Math_max (Fin 0) (Math_min (Fin 1) v))"
  by (cases v) (auto simp add: Math_max_def Math_min_def volume_in_range_def)

lemma clamp_NaN: "Math_max (Fin 0) (Math_min (Fin 1) NaN) = NaN"
  by (simp add: Math_max_def Math_min_def)

lemma volumes_ok_set_playing: "volumes_ok els \<Longrightarrow> volumes_ok (set_playing h b els)"
  by (auto simp add: volumes_ok_def set_playing_def list_all_iff dest!: set_update_subset_insert[THEN subsetD])

lemma volumes_ok_set_el_volume:
  "volumes_ok els \<Longrightarrow> volume_in_range v \<Longrightarrow> volumes_ok (set_el_volume h v els)"
  by (auto simp add: volumes_ok_def set_el_volume_def list_all_iff dest!: set_update_subset_insert[THEN subsetD])

lemma volumes_ok_new: "volumes_ok els \<Longrightarrow> volumes_ok (els @ [new_Audio d])"
  by (simp add: volumes_ok_def new_Audio_def volume_in_range_def)

lemma stopCurrentAudio_vol:
  "volume (stopCurrentAudio m) = volume m"
  "volumes_ok (elements m) \<Longrightarrow> volumes_ok (elements (stopCurrentAudio m))"
  by (auto simp add: stopCurrentAudio_def Let_def volumes_ok_set_playing split: option.splits)

lemma playAudio_vol:
  "volume (fst (playAudio b mime m)) = volume m"
  "volumes_ok (elements m) \<Longrightarrow> volumes_ok (elements (fst (playAudio b mime m)))"
  by (auto simp add: playAudio_def Let_def console_log_def el_play_def stopCurrentAudio_vol
      volumes_ok_set_playing volumes_ok_set_el_volume volumes_ok_new)

lemma playNextInQueue_vol:
  "volume (playNextInQueue m) = volume m"
  "volumes_ok (elements m) \<Longrightarrow> volumes_ok (elements (playNextInQueue m))"
  by (auto simp add: playNextInQueue_def Let_def playAudio_vol)

lemma setVolume_vol:
  "volume (fst (setVolume v m)) = Math_max (Fin 0) (Math_min (Fin 1) v)"
  "volumes_ok (elements m) \<Longrightarrow> volumes_ok (elements (fst (setVolume v m)))"
  by (auto simp add: setVolume_def Let_def volumes_ok_set_el_volume split: option.splits)

lemma am_step_vol:
  "volumes_ok (elements m) \<Longrightarrow> volumes_ok (elements (am_step m e))"
  "e \<noteq> SetVolume NaN \<Longrightarrow> volume_in_range (volume m) \<Longrightarrow> volume_in_range (volume (am_step m e))"
  by (cases e; auto simp add: queueAudio_def Let_def playNextInQueue_vol playAudio_vol
        stopCurrentAudio_vol clearQueue_def stopAll_def setVolume_vol clamp_in_range
        am_element_event_def am_onended_def am_onerror_def console_log_def revokeObjectURL_def
        playAudio_resolved_def playAudio_rejected_def volumes_ok_set_playing el_begin_def)+

lemma am_run_vol:
  "volumes_ok (elements m) \<Longrightarrow> volumes_ok (elements (am_run es m))"
  "SetVolume NaN \<notin> set es \<Longrightarrow> volume_in_range (volume m) \<Longrightarrow> volume_in_range (volume (am_run es m))"
  by (induction es arbitrary: m) (auto simp add: am_run_def am_step_vol)

text \<open>
  For every number other than NaN, the infinities included, \<^verbatim>\<open>setVolume\<close> stores the
  number clamped to the interval from 0 to 1. In a run in which \<^verbatim>\<open>setVolume\<close> is never
  given NaN the stored volume is between 0 and 1 after every operation, and in every run
  every Audio element has a volume attribute between 0 and 1.
\<close>

lemma setVolume_clamps:
  "getVolume (fst (setVolume (Fin r) m)) = Fin (max 0 (min 1 r))"
  "getVolume (fst (setVolume PosInf m)) = Fin 1"
  "getVolume (fst (setVolume NegInf m)) = Fin 0"
  by (auto simp add: getVolume_def setVolume_vol Math_max_def Math_min_def)

lemma volume_in_range_without_NaN:
  assumes "SetVolume NaN \<notin> set es"
  shows "volume_in_range (getVolume (am_run es new_AudioManager))"
    and "volumes_ok (elements (am_run fs new_AudioManager))"
proof -
  have m0: "volume_in_range (volume new_AudioManager)" "volumes_ok (elements new_AudioManager)"
    by (simp_all add: new_AudioManager_def volume_in_range_def volumes_ok_def)
  show "volume_in_range (getVolume (am_run es new_AudioManager))"
    using am_run_vol(2)[OF assms m0(1)] by (simp add: getVolume_def)
  show "volumes_ok (elements (am_run fs new_AudioManager))"
    using am_run_vol(1)[OF m0(2), of fs] by simp
qed

text \<open>
  C10 (for every input \<^verbatim>\<open>setVolume\<close> keeps the stored volume between 0 and 1).
  AudioManager breaks it at NaN: \<^verbatim>\<open>Math.min(1, NaN)\<close> and then \<^verbatim>\<open>Math.max(0, NaN)\<close>
  are NaN, so \<^verbatim>\<open>setVolume(NaN)\<close> stores NaN, which \<^verbatim>\<open>getVolume\<close> returns and which is
  not between 0 and 1. While an element is current the call throws, the element
  refusing the value. And from then on, until \<^verbatim>\<open>setVolume\<close> is given a number again,
  no fragment is played: \<^verbatim>\<open>playAudio\<close> fails when it gives the stored volume to the
  new element, so a fragment given to \<^verbatim>\<open>queueAudio\<close> is taken from the queue and never
  started, where without the call it is started.
\<close>

theorem C10_setVolume_NaN_is_stored:
  "getVolume (fst (setVolume NaN new_AudioManager)) = NaN
   \<and> \<not> volume_in_range (getVolume (fst (setVolume NaN new_AudioManager)))
   \<and> snd (setVolume NaN (am_run [QueueAudio (Some ''QUJD'') ''audio/mp3''] new_AudioManager))
       = Some TypeError
   \<and> started (am_run [SetVolume NaN, QueueAudio (Some ''QUJD'') ''audio/mp3''] new_AudioManager) = []
   \<and> getQueueLength (am_run [SetVolume NaN, QueueAudio (Some ''QUJD'') ''audio/mp3''] new_AudioManager) = 0
   \<and> map snd (started (am_run [QueueAudio (Some ''QUJD'') ''audio/mp3''] new_AudioManager)) = [''QUJD'']"
  by (simp add: am_run_def new_AudioManager_def setVolume_def getVolume_def getQueueLength_def
      Math_max_def Math_min_def volume_in_range_def queueAudio_def playNextInQueue_def playAudio_def
      stopCurrentAudio_def el_play_def set_playing_def set_el_volume_def new_Audio_def
      falsy_def console_log_def atob_ok_samples Let_def nth_append)

subsection \<open>Reconnection\<close>


lemma filter_update_count:
  "i < length xs \<Longrightarrow> \<not> P (xs ! i) \<Longrightarrow> P x \<Longrightarrow>
     length (filter P (xs[i := x])) = Suc (length (filter P xs))"
proof (induction xs arbitrary: i)
  case Nil
  then show ?case by simp
next
  case (Cons y ys)
  then show ?case by (cases i) auto
qed

lemma closures_set_closed:
  assumes "i < length (sockets n)" "state_of n i \<noteq> Some CLOSED"
  shows "closures (set_readyState i CLOSED n) = Suc (closures n)"
  using assms filter_update_count[of i "sockets n" "\<lambda>s. readyState s = CLOSED"
      "(sockets n ! i)\<lparr>readyState := CLOSED\<rparr>"]
  by (simp add: closures_def set_readyState_def state_of_def)

lemma backoff_Suc:
  "backoff (Suc n) = (if n < 5 then backoff n @ [2000 * Suc n] else backoff n)"
  by (auto simp add: backoff_def min_def)

lemma client_onclose_failing:
  assumes "maxReconnectAttempts c = 5" "reconnectAttempts c = min n 5"
    "scheduled c = backoff n" "states c = concat (map announced [1 ..< Suc n])"
  shows "maxReconnectAttempts (client_onclose c) = 5
       \<and> reconnectAttempts (client_onclose c) = min (Suc n) 5
       \<and> scheduled (client_onclose c) = backoff (Suc n)
       \<and> states (client_onclose c) = concat (map announced [1 ..< Suc (Suc n)])
       \<and> sockets (client_onclose c) = sockets c"
  using assms
  by (auto simp add: client_onclose_def attemptReconnect_def notifyConnectionState_def
      console_log_def setTimeout_def Let_def backoff_Suc announced_def)

lemma connect_failing: "failing c \<Longrightarrow> failing (connect c)"
  by (simp add: failing_def connect_def console_log_def new_WebSocket_def closures_def Let_def)

lemma client_step_failing:
  assumes "failing c" "failure_event e"
  shows "failing (client_step c e)"
proof (cases e)
  case (Net ne)
  show ?thesis
  proof (cases ne)
    case (SocketClose i code)
    show ?thesis
    proof (cases "i < length (sockets c) \<and> state_of c i \<noteq> Some CLOSED")
      case True
      let ?c1 = "set_readyState i CLOSED c"
      have n: "closures ?c1 = Suc (closures c)"
        using True closures_set_closed by blast
      have f: "maxReconnectAttempts ?c1 = 5" "reconnectAttempts ?c1 = min (closures c) 5"
        "scheduled ?c1 = backoff (closures c)"
        "states ?c1 = concat (map announced [1 ..< Suc (closures c)])"
        using assms(1) by (simp_all add: failing_def set_readyState_def)
      have "closures (client_onclose ?c1) = closures ?c1"
        using client_onclose_failing[OF f] by (simp add: closures_def)
      then show ?thesis
        using client_onclose_failing[OF f] n True Net SocketClose
        by (simp add: failing_def)
    next
      case False
      then show ?thesis using assms(1) Net SocketClose by auto
    qed
  next
    case (ReconnectTimer t)
    have "failing (c\<lparr>pending_timers := removeAll t (pending_timers c)\<rparr>)"
      using assms(1) by (simp add: failing_def closures_def)
    then show ?thesis
      using assms(1) Net ReconnectTimer connect_failing by simp
  qed (use assms(2) Net in simp_all)
qed (use assms(2) in simp_all)

lemma client_run_failing:
  "failing c \<Longrightarrow> list_all failure_event es \<Longrightarrow> failing (client_run es c)"
  by (induction es arbitrary: c) (simp_all add: client_run_def client_step_failing)

lemma fresh_failing: "failing (connect new_WebSocketClient)"
  by (simp add: failing_def connect_def new_WebSocketClient_def console_log_def new_WebSocket_def
      closures_def backoff_def Let_def)

text \<open>
  C3 (linear backoff, then failed). Take a fresh WebSocketClient that has connected, and
  any run in which sockets only close and reconnect timers only fire. If \<open>n\<close> close
  events were delivered, the delays given to \<^verbatim>\<open>setTimeout\<close> are, in order,
  \<open>2000 * 1, ..., 2000 * min n 5\<close>: one reconnect per closure for the first five
  closures, 2000 ms times the attempt count, and none after. The states announced are
  \<^verbatim>\<open>disconnected\<close> then \<^verbatim>\<open>reconnecting\<close> for each of the first five closures and
  \<^verbatim>\<open>disconnected\<close> then \<^verbatim>\<open>failed\<close> for every later one: the transport is failed from
  the closure that follows the fifth attempt on.
\<close>

theorem C3_linear_backoff_then_failed:
  assumes "list_all failure_event es"
  shows "scheduled (client_run es (connect new_WebSocketClient))
           = backoff (closures (client_run es (connect new_WebSocketClient)))
       \<and> states (client_run es (connect new_WebSocketClient))
           = concat (map announced [1 ..< Suc (closures (client_run es (connect new_WebSocketClient)))])"
  using client_run_failing[OF fresh_failing assms] by (simp add: failing_def)

lemma six_failures_closures:
  "closures (client_run six_failures (connect new_WebSocketClient)) = 6"
  "pending_timers (client_run six_failures (connect new_WebSocketClient)) = []"
  by (simp_all add: six_failures_def client_run_def connect_def new_WebSocketClient_def console_log_def
      new_WebSocket_def closures_def Let_def set_readyState_def state_of_def
      client_onclose_def attemptReconnect_def notifyConnectionState_def setTimeout_def nth_append)

theorem C3_backoff_witness:
  "list_all failure_event six_failures
   \<and> scheduled (client_run six_failures (connect new_WebSocketClient))
       = [2000, 4000, 6000, 8000, 10000]
   \<and> pending_timers (client_run six_failures (connect new_WebSocketClient)) = []
   \<and> states (client_run six_failures (connect new_WebSocketClient))
       = [''disconnected'', ''reconnecting'', ''disconnected'', ''reconnecting'',
          ''disconnected'', ''reconnecting'', ''disconnected'', ''reconnecting'',
          ''disconnected'', ''reconnecting'', ''disconnected'', ''failed'']"
proof -
  have h: "list_all failure_event six_failures" by (simp add: six_failures_def)
  show ?thesis
    using h C3_linear_backoff_then_failed[OF h]
    by (simp add: six_failures_closures backoff_def announced_def upt_rec)
qed

subsection \<open>Disconnecting, sending, dispatching\<close>


text \<open>
  C4 (no reconnect after an explicit disconnect). WebSocketClient breaks it: its
  \<^verbatim>\<open>onclose\<close> handler calls \<^verbatim>\<open>attemptReconnect\<close> whatever closed the socket, so the
  close event that follows \<^verbatim>\<open>disconnect()\<close> sets a reconnect timer of 2000 ms, which
  is pending afterwards. WebSocketManager, which tests the close code, sets none.
\<close>

theorem C4_client_reconnects_after_disconnect:
  "scheduled (client_run [Connect, Net (SocketOpen 0), Disconnect, Net (SocketClose 0 1000)]
      new_WebSocketClient) = [2000]
   \<and> pending_timers (client_run [Connect, Net (SocketOpen 0), Disconnect, Net (SocketClose 0 1000)]
      new_WebSocketClient) = [0]
   \<and> states (client_run [Connect, Net (SocketOpen 0), Disconnect, Net (SocketClose 0 1000)]
      new_WebSocketClient) = [''connected'', ''disconnected'', ''reconnecting'']
   \<and> scheduled (wm_run [WmConnect, WmNet (SocketOpen 0), WmDisconnect, WmNet (SocketClose 0 1000)]
      new_WebSocketManager) = []"
  by (simp add: client_run_def wm_run_def new_WebSocketClient_def new_WebSocketManager_def
      connect_def wm_connect_def disconnect_def wm_disconnect_def client_onopen_def wm_onopen_def
      client_onclose_def wm_onclose_def attemptReconnect_def notifyConnectionState_def
      console_log_def new_WebSocket_def set_readyState_def state_of_def ws_close_def
      setTimeout_def clearTimeout_def invoke_def Let_def)

lemma wm_clean_close_schedules_nothing:
  "scheduled (wm_onclose 1000 m) = scheduled m"
  "pending_timers (wm_onclose 1000 m) = pending_timers m"
  by (simp_all add: wm_onclose_def console_log_def invoke_def Let_def)

lemma ws_send_open: "readyState s = OPEN \<Longrightarrow> ws_send f s = Inr (s\<lparr>sent := sent s @ [f]\<rparr>)"
  by (simp add: ws_send_def)

lemma socket_open_iff:
  "socket_open n w = (\<exists>i. w = Some i \<and> i < length (sockets n) \<and> readyState (sockets n ! i) = OPEN)"
  by (auto simp add: socket_open_def state_of_def split: option.splits if_splits)

lemma sendMessage_result:
  "sendMessage msg c =
     Inr (if socket_open c (ws c)
          then (c\<lparr>sockets := transmit (JSON_stringify msg) (the (ws c)) (sockets c)\<rparr>, True)
          else (c\<lparr>console := console c @ [(Warn, ''WebSocket not connected, cannot send message:'')]\<rparr>, False))"
  by (auto simp add: sendMessage_def socket_open_iff ws_send_open transmit_def console_log_def)

lemma wm_sendMessage_result:
  "wm_sendMessage msg m =
     (if socket_open m (ws_wm m)
      then (m\<lparr>console := console m @ [(Log, ''Sending WebSocket message:'')],
              sockets := transmit (JSON_stringify msg) (the (ws_wm m)) (sockets m)\<rparr>, True)
      else (m\<lparr>console := console m @ [(Err, ''WebSocket not connected. Ready state:'')]\<rparr>, False))"
  by (auto simp add: wm_sendMessage_def socket_open_iff ws_send_open transmit_def console_log_def Let_def)

text \<open>
  C6 (send returns a success flag). In both transports \<^verbatim>\<open>sendMessage\<close> never throws. It
  returns \<^verbatim>\<open>true\<close> exactly when the transport has a socket and that socket is open, having
  put the serialized message on that socket as its next frame; otherwise it returns
  \<^verbatim>\<open>false\<close> and no socket has changed. Nothing else of the transport changes either way,
  but for one line written to the console.
\<close>

theorem C6_send_returns_a_flag:
  "(\<exists>c' ok. sendMessage msg c = Inr (c', ok) \<and> ok = socket_open c (ws c)
      \<and> c'\<lparr>console := console c, sockets := sockets c\<rparr> = c
      \<and> sockets c' = (if ok then transmit (JSON_stringify msg) (the (ws c)) (sockets c) else sockets c)
      \<and> console c' = (if ok then console c
           else console c @ [(Warn, ''WebSocket not connected, cannot send message:'')]))
   \<and> (\<exists>m' ok. wm_sendMessage msg m = (m', ok) \<and> ok = socket_open m (ws_wm m)
      \<and> m'\<lparr>console := console m, sockets := sockets m\<rparr> = m
      \<and> sockets m' = (if ok then transmit (JSON_stringify msg) (the (ws_wm m)) (sockets m) else sockets m)
      \<and> console m' = (if ok then console m @ [(Log, ''Sending WebSocket message:'')]
           else console m @ [(Err, ''WebSocket not connected. Ready state:'')]))"
  by (simp add: sendMessage_result wm_sendMessage_result)



lemma onMessage_last_wins:
  "messageHandlers (onMessage t h2 (onMessage t h1 c)) t = Some h2"
  by (simp add: onMessage_def)

subsection \<open>The streamed assistant entry\<close>


lemma removeAll_fresh:
  assumes "list_all (\<lambda>h. h < (n::nat)) kids"
  shows "removeAll n kids = kids"
proof -
  have "n \<notin> set kids" using assms by (fastforce simp add: list_all_iff)
  then show ?thesis by (rule removeAll_id)
qed

lemma map_nth_append_old:
  "list_all (\<lambda>h. h < length xs) kids \<Longrightarrow> map (\<lambda>h. (xs @ ys) ! h) kids = map (\<lambda>h. xs ! h) kids"
  by (induction kids) (auto simp add: nth_append)

lemma streamed_response_nodes:
  assumes "chatArea u = Some kids"
  shows "nodes (streamed_response [''A'', ''AB'', ''ABC''] ''ABC'' u)
           = nodes u @ [\<lparr>className = ''message ai'', textContent = ''AI: ABC'', node_id = None, title = None\<rparr>]"
    and "chatArea (streamed_response [''A'', ''AB'', ''ABC''] ''ABC'' u)
           = Some (removeAll (length (nodes u)) kids @ [length (nodes u)])"
    and "currentAiMessage (streamed_response [''A'', ''AB'', ''ABC''] ''ABC'' u) = None"
    and "conversationHistory (streamed_response [''A'', ''AB'', ''ABC''] ''ABC'' u) = conversationHistory u"
  using assms
  by (simp_all add: streamed_response_def startAiResponse_def updateAiResponse_def
      finishAiResponse_def createElement_def appendChild_def update_node_def text_of_def
      template_def Let_def)

text \<open>
  C8 (one streamed entry), as amended. On a page with a chat area, \<^verbatim>\<open>startAiResponse\<close>,
  three updates with the cumulative texts A, AB, ABC and \<^verbatim>\<open>finishAiResponse\<close> with ABC
  add exactly one entry to the chat area, after the entries that were there. Its final
  content is the final text behind the label \<^verbatim>\<open>AI: \<close>, its class is that of a finished
  message and its id is gone. The reference to the current response is cleared, and the
  conversation history is as it was.
\<close>

theorem C8_one_streamed_entry:
  assumes "well_formed u"
  shows "entries (streamed_response [''A'', ''AB'', ''ABC''] ''ABC'' u)
           = entries u @ [\<lparr>className = ''message ai'', textContent = ''AI: ABC'', node_id = None, title = None\<rparr>]
       \<and> currentAiMessage (streamed_response [''A'', ''AB'', ''ABC''] ''ABC'' u) = None
       \<and> conversationHistory (streamed_response [''A'', ''AB'', ''ABC''] ''ABC'' u) = conversationHistory u"
proof -
  obtain kids where k: "chatArea u = Some kids" "list_all (\<lambda>h. h < length (nodes u)) kids"
    using assms by (auto simp add: well_formed_def split: option.splits)
  show ?thesis
    using streamed_response_nodes[OF k(1)] k
    by (simp add: entries_def removeAll_fresh map_nth_append_old)
qed

theorem C8_streamed_entry_witness:
  "well_formed new_UIManager
   \<and> entries (streamed_response [''A'', ''AB'', ''ABC''] ''ABC'' new_UIManager)
       = [\<lparr>className = ''message ai'', textContent = ''AI: ABC'', node_id = None, title = None\<rparr>]
   \<and> currentAiMessage (streamed_response [''A'', ''AB'', ''ABC''] ''ABC'' new_UIManager) = None"
proof -
  have h: "well_formed new_UIManager" by (simp add: well_formed_def new_UIManager_def)
  have e: "entries new_UIManager = []" by (simp add: entries_def new_UIManager_def)
  show ?thesis using h C8_one_streamed_entry[OF h] e by simp
qed

text \<open>
  C8 as stated fails on the content: \<^verbatim>\<open>finishAiResponse\<close> writes the label before the
  final text, so the one entry does not read ABC.
\<close>

theorem C8_final_content_counterexample:
  "map textContent (entries (streamed_response [''A'', ''AB'', ''ABC''] ''ABC'' new_UIManager)) \<noteq> [''ABC'']"
  by (simp add: streamed_response_def startAiResponse_def updateAiResponse_def
      finishAiResponse_def createElement_def appendChild_def update_node_def text_of_def
      template_def Let_def entries_def new_UIManager_def)

subsection \<open>Speech results and message dispatch in the orchestrator\<close>

lemma trim_Nil: "trim [] = []"
  by (simp add: trim_def trimEnd_def)

lemma trim_samples: "trim ''hel'' = ''hel''" "trim ''hello'' = ''hello''"
  "trim ''hello world '' = ''hello world''" "trim ''hello world'' = ''hello world''"
  by (simp_all add: trim_def trimEnd_def js_space_def js_space2_def js_space3_def)

lemma trim_unicode_samples:
  "trim [CHR 0xC2, CHR 0xA0, CHR ''h'', CHR ''i'', CHR 0xE2, CHR 0x80, CHR 0xA8, CHR 0x20] = ''hi''"
  "trim [CHR 0xEF, CHR 0xBB, CHR 0xBF, CHR 0x0A] = []"
  "trim [CHR 0xC3, CHR 0xA0] = [CHR 0xC3, CHR 0xA0]"
  by (simp_all add: trim_def trimEnd_def js_space_def js_space2_def js_space3_def)

lemma onresult_samples:
  "onresult (interim ''hel'') = [OnInterimResult ''hel'']"
  "onresult (interim ''hello'') = [OnInterimResult ''hello'']"
  "onresult (final ''hello world'') = [OnResult ''hello world'']"
  by (simp_all add: onresult_def interim_def final_def Let_def trim_samples trim_Nil)

lemma accumulate_interim:
  "list_all (\<lambda>r. \<not> isFinal r) rs \<Longrightarrow> snd (accumulate rs (i, f)) = f"
  by (induction rs arbitrary: i f) auto

lemma onresult_interim_only:
  assumes "list_all (\<lambda>r. \<not> isFinal r) (results ev)"
  shows "onresult ev = [] \<or> (\<exists>t. onresult ev = [OnInterimResult t])"
proof -
  have "list_all (\<lambda>r. \<not> isFinal r) (drop (resultIndex ev) (results ev))"
    using assms by (auto simp add: list_all_iff dest: in_set_dropD)
  then have "snd (accumulate (drop (resultIndex ev) (results ev)) ([], [])) = []"
    by (rule accumulate_interim)
  then show ?thesis by (simp add: onresult_def Let_def trim_Nil)
qed

lemma interim_websocket: "websocket (handleInterimSpeechResult t vc) = websocket vc"
  by (simp add: handleInterimSpeechResult_def)

lemma handleSpeechResult_websocket:
  "websocket (handleSpeechResult t vc)
     = (if isConnected_vc vc \<and> trim t \<noteq> [] then fst (sendUserSpeech (trim t) (websocket vc))
        else websocket vc)"
    and "isConnected_vc (handleSpeechResult t vc) = isConnected_vc vc"
  by (simp_all add: handleSpeechResult_def sendTranscription_def vc_log_def Let_def)


lemma recognition_interim_only:
  assumes "list_all (\<lambda>r. \<not> isFinal r) (results ev)"
  shows "websocket (recognition_result vc ev) = websocket vc"
  using onresult_interim_only[OF assms]
  by (auto simp add: recognition_result_def interim_websocket)

lemma sendUserSpeech_open:
  assumes "socket_open w (ws_wm w)"
  shows "map sent (sockets (fst (sendUserSpeech t w)))
           = (map sent (sockets w))[the (ws_wm w) :=
                sent (sockets w ! the (ws_wm w)) @ [JSON_stringify [(''type'', ''user_speech''), (''content'', trim t)]]]"
  using assms
  by (auto simp add: sendUserSpeech_def wm_sendMessage_result transmit_def map_update socket_open_iff)

lemma trim_hello: "trim (trim ''hello world'') = ''hello world''"
  by (simp add: trim_samples)

text \<open>
  C9 (only final results are sent). In a VoiceCall that is connected and whose socket is
  open, the recognition events for the interim results hel and hello and the final
  result hello world put exactly one frame on that socket, the \<^verbatim>\<open>user_speech\<close> message
  with content hello world, and nothing on any other socket. A recognition event none
  of whose results is final sends nothing.
\<close>

theorem C9_only_final_results_are_sent:
  assumes "isConnected_vc vc" and "socket_open (websocket vc) (ws_wm (websocket vc))"
    and "list_all (\<lambda>r. \<not> isFinal r) (results ev)"
  shows "outbound (foldl recognition_result vc [interim ''hel'', interim ''hello'', final ''hello world''])
           = (outbound vc)[the (ws_wm (websocket vc)) :=
                outbound vc ! the (ws_wm (websocket vc))
                  @ [JSON_stringify [(''type'', ''user_speech''), (''content'', ''hello world'')]]]
       \<and> outbound (recognition_result vc ev) = outbound vc"
proof -
  let ?v2 = "handleInterimSpeechResult ''hello'' (handleInterimSpeechResult ''hel'' vc)"
  have run: "foldl recognition_result vc [interim ''hel'', interim ''hello'', final ''hello world'']
               = handleSpeechResult ''hello world'' ?v2"
    by (simp add: recognition_result_def onresult_samples)
  have w2: "websocket ?v2 = websocket vc" "isConnected_vc ?v2 = isConnected_vc vc"
    by (simp_all add: handleInterimSpeechResult_def)
  have i: "the (ws_wm (websocket vc)) < length (sockets (websocket vc))"
    using assms(2) by (auto simp add: socket_open_iff)
  have "websocket (handleSpeechResult ''hello world'' ?v2)
          = fst (sendUserSpeech ''hello world'' (websocket vc))"
    using assms(1) by (simp add: handleSpeechResult_websocket w2 trim_samples)
  then have "outbound (handleSpeechResult ''hello world'' ?v2)
          = (outbound vc)[the (ws_wm (websocket vc)) :=
                outbound vc ! the (ws_wm (websocket vc))
                  @ [JSON_stringify [(''type'', ''user_speech''), (''content'', ''hello world'')]]]"
    using sendUserSpeech_open[OF assms(2), of "''hello world''"] i
    by (simp add: outbound_def trim_samples)
  then show ?thesis
    using run recognition_interim_only[OF assms(3), of vc] by (simp add: outbound_def)
qed

lemma call_in_progress_open:
  "isConnected_vc call_in_progress"
  "socket_open (websocket call_in_progress) (ws_wm (websocket call_in_progress))"
  "outbound call_in_progress = [[]]"
  "ws_wm (websocket call_in_progress) = Some 0"
  by (simp_all add: call_in_progress_def handleWebSocketOpen_def wm_run_def wm_connect_def
      wm_onopen_def new_WebSocketManager_def new_WebSocket_def console_log_def invoke_def
      set_readyState_def state_of_def socket_open_def outbound_def Let_def)

theorem C9_transcript_witness:
  "isConnected_vc call_in_progress
   \<and> socket_open (websocket call_in_progress) (ws_wm (websocket call_in_progress))
   \<and> list_all (\<lambda>r. \<not> isFinal r) (results (interim ''hel''))
   \<and> outbound (foldl recognition_result call_in_progress
         [interim ''hel'', interim ''hello'', final ''hello world''])
       = [[JSON_stringify [(''type'', ''user_speech''), (''content'', ''hello world'')]]]
   \<and> outbound (recognition_result call_in_progress (interim ''hel'')) = [[]]"
proof -
  have h: "list_all (\<lambda>r. \<not> isFinal r) (results (interim ''hel''))"
    by (simp add: interim_def)
  show ?thesis
    using h call_in_progress_open
      C9_only_final_results_are_sent[OF call_in_progress_open(1) call_in_progress_open(2) h]
    by simp
qed




end
